theory Spec2Isabelle
  imports Main "HOL-Library.Sublist"
begin

section \<open>Go values used by package partitionhelper\<close>

text \<open>
  A Go \<open>string\<close> is a sequence of bytes, here a \<open>string\<close> (a list of 8-bit \<open>char\<close>).
  A Go \<open>error\<close> is observed through its \<open>Error()\<close> text only; \<open>fmt.Errorf\<close> without
  a wrapping verb builds an error from the formatted text. A nil error is \<open>None\<close>.
\<close>

datatype error = errorString (Error: string)

abbreviation Errorf :: "string \<Rightarrow> error" where
  "Errorf msg \<equiv> errorString msg"

text \<open>
  Two functions of the Go library consult Unicode tables on input that is not plain
  ASCII: \<open>strings.ToLower\<close> (case mapping) and \<open>strconv.Quote\<close>, which renders a
  string under the verb \<open>%#v\<close> (printability). The tables are not part of the repository;
  they are taken as parameters, and every theorem holds whatever they are.
\<close>

record unicode =
  MapToLower :: "string \<Rightarrow> string"
  QuoteOther :: "string \<Rightarrow> string"

definition isASCII :: "char \<Rightarrow> bool" where
  "isASCII c = ((of_char c :: nat) < 0x80)"

definition isPrintASCII :: "char \<Rightarrow> bool" where
  "isPrintASCII c = (0x20 \<le> (of_char c :: nat) \<and> (of_char c :: nat) \<le> 0x7E)"

definition lowerByte :: "char \<Rightarrow> char" where
  "lowerByte c =
     (if (0x41::nat) \<le> of_char c \<and> of_char c \<le> (0x5A::nat)
      then char_of (of_char c + (0x20::nat)) else c)"

text \<open>\<open>strings.ToLower\<close>: bytewise on ASCII-only input, the Unicode mapping otherwise.\<close>

definition ToLower :: "unicode \<Rightarrow> string \<Rightarrow> string" where
  "ToLower u s = (if list_all isASCII s then map lowerByte s else MapToLower u s)"

definition escapeByte :: "char \<Rightarrow> string" where
  "escapeByte c = (if c = CHR 0x22 \<or> c = CHR 0x5C then [CHR 0x5C, c] else [c])"

text \<open>
  \<open>strconv.Quote\<close>, the rendering of a string under \<open>%#v\<close>: a double-quoted Go literal.
  On printable ASCII only the double quote and the backslash are escaped.
\<close>

definition Quote :: "unicode \<Rightarrow> string \<Rightarrow> string" where
  "Quote u s =
     (if list_all isPrintASCII s
      then CHR 0x22 # concat (map escapeByte s) @ [CHR 0x22]
      else QuoteOther u s)"

subsection \<open>strings.Index, strings.Contains, strings.Split\<close>

fun Index :: "string \<Rightarrow> string \<Rightarrow> nat option" where
  "Index [] substr = (if substr = [] then Some 0 else None)"
| "Index (c # cs) substr =
     (if prefix substr (c # cs) then Some 0 else map_option Suc (Index cs substr))"

definition Contains :: "string \<Rightarrow> string \<Rightarrow> bool" where
  "Contains s substr = (Index s substr \<noteq> None)"

text \<open>
  \<open>strings.Split\<close>. For a non-empty separator: find the first occurrence, cut the piece
  before it, continue behind the separator; what is left is the last piece. For the empty
  separator Go cuts after each UTF-8 sequence; the package never passes one, and the
  model cuts after each byte there.
\<close>

function Split :: "string \<Rightarrow> string \<Rightarrow> string list" where
  "Split s sep =
     (if sep = [] then map (\<lambda>c. [c]) s
      else (case Index s sep of
              None \<Rightarrow> [s]
            | Some m \<Rightarrow> take m s # Split (drop (m + length sep) s) sep))"
  by pat_completeness auto
termination
proof (relation "measure (\<lambda>(s, sep). length s)")
  show "wf (measure (\<lambda>(s, sep). length s))" by simp
next
  fix s sep :: string and m :: nat
  assume "sep \<noteq> []" and "Index s sep = Some m"
  then have "0 < length sep" and "0 < length s"
    by (cases s; simp)+
  then have "length s - (m + length sep) < length s" by arith
  then show "((drop (m + length sep) s, sep), (s, sep)) \<in> measure (\<lambda>(s, sep). length s)"
    by simp
qed

declare Split.simps [simp del]

subsection \<open>strings.TrimSpace\<close>

text \<open>
  \<open>strings.TrimSpace\<close> removes the leading and the trailing white space "as defined by
  Unicode". On bytes these are the UTF-8 encodings of the runes of \<open>unicode.IsSpace\<close>:
  U+0009 to U+000D, U+0020, U+0085, U+00A0, U+1680, U+2000 to U+200A, U+2028, U+2029,
  U+202F, U+205F and U+3000. No encoding is a prefix or a suffix of another one, so at
  most one of them starts (or ends) a given string.
\<close>

definition unicodeSpaces :: "string list" where
  "unicodeSpaces =
     [[CHR 0x09], [CHR 0x0A], [CHR 0x0B], [CHR 0x0C], [CHR 0x0D], [CHR 0x20],
      [CHR 0xC2, CHR 0x85], [CHR 0xC2, CHR 0xA0],
      [CHR 0xE1, CHR 0x9A, CHR 0x80],
      [CHR 0xE2, CHR 0x80, CHR 0x80], [CHR 0xE2, CHR 0x80, CHR 0x81],
      [CHR 0xE2, CHR 0x80, CHR 0x82], [CHR 0xE2, CHR 0x80, CHR 0x83],
      [CHR 0xE2, CHR 0x80, CHR 0x84], [CHR 0xE2, CHR 0x80, CHR 0x85],
      [CHR 0xE2, CHR 0x80, CHR 0x86], [CHR 0xE2, CHR 0x80, CHR 0x87],
      [CHR 0xE2, CHR 0x80, CHR 0x88], [CHR 0xE2, CHR 0x80, CHR 0x89],
      [CHR 0xE2, CHR 0x80, CHR 0x8A],
      [CHR 0xE2, CHR 0x80, CHR 0xA8], [CHR 0xE2, CHR 0x80, CHR 0xA9],
      [CHR 0xE2, CHR 0x80, CHR 0xAF],
      [CHR 0xE2, CHR 0x81, CHR 0x9F],
      [CHR 0xE3, CHR 0x80, CHR 0x80]]"

function TrimLeft :: "string \<Rightarrow> string" where
  "TrimLeft s =
     (case find (\<lambda>w. prefix w s) unicodeSpaces of
        None \<Rightarrow> s
      | Some w \<Rightarrow> TrimLeft (drop (length w) s))"
  by pat_completeness auto
termination
proof (relation "measure length")
  show "wf (measure length)" by simp
next
  fix s w :: string
  assume "find (\<lambda>w. prefix w s) unicodeSpaces = Some w"
  then have "prefix w s" and "w \<in> set unicodeSpaces"
    by (auto simp: find_Some_iff)
  then have "length w \<le> length s" and "0 < length w"
    by (auto simp: prefix_length_le unicodeSpaces_def)
  then have "length s - length w < length s" by arith
  then show "(drop (length w) s, s) \<in> measure length" by simp
qed

function TrimRight :: "string \<Rightarrow> string" where
  "TrimRight s =
     (case find (\<lambda>w. suffix w s) unicodeSpaces of
        None \<Rightarrow> s
      | Some w \<Rightarrow> TrimRight (take (length s - length w) s))"
  by pat_completeness auto
termination
proof (relation "measure length")
  show "wf (measure length)" by simp
next
  fix s w :: string
  assume "find (\<lambda>w. suffix w s) unicodeSpaces = Some w"
  then have "suffix w s" and "w \<in> set unicodeSpaces"
    by (auto simp: find_Some_iff)
  then have "length w \<le> length s" and "0 < length w"
    by (auto simp: suffix_length_le unicodeSpaces_def)
  then have "length s - length w < length s" by arith
  then show "(take (length s - length w) s, s) \<in> measure length" by simp
qed

declare TrimLeft.simps [simp del] TrimRight.simps [simp del]

definition TrimSpace :: "string \<Rightarrow> string" where
  "TrimSpace s = TrimRight (TrimLeft s)"

section \<open>The command executor\<close>

text \<open>
  \<open>command.CmdExecutor\<close> is an interface with one method,
  \<open>RunCmd(cmd) (stdout, stderr string, err error)\<close>. Running a command is an effect:
  the executor reads and changes a state of its own (the machine, or a spy's record of
  calls), so it is a function from the command and the state to the three results
  and the next state.
\<close>

type_synonym 's CmdExecutor = "string \<Rightarrow> 's \<Rightarrow> (string \<times> string \<times> error option) \<times> 's"

record 's Partition =
  e :: "'s CmdExecutor"

definition NewPartition :: "'s CmdExecutor \<Rightarrow> 's Partition" where
  "NewPartition ex = \<lparr>e = ex\<rparr>"

text \<open>
  A spy executor: it answers every command with the same three results and appends the
  command to the list of commands it has been given.
\<close>

definition spy :: "string \<times> string \<times> error option \<Rightarrow> string list CmdExecutor" where
  "spy r cmd calls = (r, calls @ [cmd])"

section \<open>Constants of the package\<close>

definition PartitionGPT :: string where
  "PartitionGPT = ''gpt''"

definition parted :: string where
  "parted = ''parted ''"

definition partprobe :: string where
  "partprobe = ''partprobe ''"

definition sgdisk :: string where
  "sgdisk = ''sgdisk ''"

text \<open>
  The command templates are only ever passed to \<open>fmt.Sprintf\<close> with as many strings as
  they have \<open>%s\<close> verbs; \<open>Sprintf\<close> then copies the template, puts the strings in the
  place of the verbs and writes \<open>%\<close> for \<open>%%\<close>. Each template is the function of its
  arguments that this formatting computes.
\<close>

definition PartprobeDeviceCmdTmpl :: "string \<Rightarrow> string" where
  "PartprobeDeviceCmdTmpl device = partprobe @ ''-d -s '' @ device"

definition PartprobeCmdTmpl :: "string \<Rightarrow> string" where
  "PartprobeCmdTmpl device = partprobe @ device"

definition CreatePartitionTableCmdTmpl :: "string \<Rightarrow> string \<Rightarrow> string" where
  "CreatePartitionTableCmdTmpl device partTableType =
     parted @ ''-s '' @ device @ '' mklabel '' @ partTableType"

definition CreatePartitionCmdTmpl :: "string \<Rightarrow> string \<Rightarrow> string" where
  "CreatePartitionCmdTmpl device partName =
     parted @ ''-s '' @ device @ '' mkpart --align optimal '' @ partName @ '' 0% 100%''"

definition DeletePartitionCmdTmpl :: "string \<Rightarrow> string \<Rightarrow> string" where
  "DeletePartitionCmdTmpl device partNum = parted @ ''-s '' @ device @ '' rm '' @ partNum"

definition SetPartitionUUIDCmdTmpl :: "string \<Rightarrow> string \<Rightarrow> string \<Rightarrow> string" where
  "SetPartitionUUIDCmdTmpl device partNum partUUID =
     sgdisk @ device @ '' --partition-guid='' @ partNum @ '':'' @ partUUID"

definition GetPartitionUUIDCmdTmpl :: "string \<Rightarrow> string \<Rightarrow> string" where
  "GetPartitionUUIDCmdTmpl device partNum = sgdisk @ device @ '' --info='' @ partNum"

definition supportedTypes :: "string list" where
  "supportedTypes = [PartitionGPT]"

text \<open>
  Modelled from the spec: \<open>util.ContainsString\<close> is declared in package \<open>util\<close>, which is
  not among the sources. The spec calls it the containment utility, a "membership test
  of a string in a fixed allow-list".
\<close>

definition ContainsString :: "string list \<Rightarrow> string \<Rightarrow> bool" where
  "ContainsString slice str = (str \<in> set slice)"

section \<open>The operations of Partition\<close>

definition IsPartitionExists ::
  "unicode \<Rightarrow> 's Partition \<Rightarrow> string \<Rightarrow> string \<Rightarrow> 's \<Rightarrow> (bool \<times> error option) \<times> 's" where
  "IsPartitionExists u p device partNum \<sigma> =
     (case e p (PartprobeDeviceCmdTmpl device) \<sigma> of
        ((stdout, stderr, err), \<sigma>') \<Rightarrow>
          if err \<noteq> None
          then ((False, Some (Errorf (''unable to check partition '' @ Quote u partNum
                                       @ '' existence for '' @ device))), \<sigma>')
          else (let s = Split (TrimSpace stdout) ''partitions''
                in if 1 < length s \<and> s ! 1 \<noteq> [] then ((True, None), \<sigma>')
                   else ((False, None), \<sigma>')))"

definition CreatePartitionTable ::
  "unicode \<Rightarrow> 's Partition \<Rightarrow> string \<Rightarrow> string \<Rightarrow> 's \<Rightarrow> error option \<times> 's" where
  "CreatePartitionTable u p device partTableType \<sigma> =
     (if \<not> ContainsString supportedTypes partTableType
      then (Some (Errorf (''unable to create partition table for device '' @ device
                          @ '' unsupported partition table type: '' @ Quote u partTableType)), \<sigma>)
      else (case e p (CreatePartitionTableCmdTmpl device partTableType) \<sigma> of
              ((stdout, stderr, err), \<sigma>') \<Rightarrow>
                if err \<noteq> None
                then (Some (Errorf (''unable to create partition table for device '' @ device)), \<sigma>')
                else (None, \<sigma>')))"

definition GetPartitionTableType ::
  "'s Partition \<Rightarrow> string \<Rightarrow> 's \<Rightarrow> (string \<times> error option) \<times> 's" where
  "GetPartitionTableType p device \<sigma> =
     (case e p (PartprobeDeviceCmdTmpl device) \<sigma> of
        ((stdout, stderr, err), \<sigma>') \<Rightarrow>
          if err \<noteq> None
          then (([], Some (Errorf (''unable to get partition table for device '' @ device))), \<sigma>')
          else (let s = Split stdout '' ''
                in if length s < 2
                   then (([], Some (Errorf (''unable to parse output '' @ [CHR 0x27] @ stdout
                                            @ [CHR 0x27] @ '' for device '' @ device))), \<sigma>')
                   else ((s ! 1, None), \<sigma>')))"

definition CreatePartition ::
  "'s Partition \<Rightarrow> string \<Rightarrow> string \<Rightarrow> 's \<Rightarrow> error option \<times> 's" where
  "CreatePartition p device partName \<sigma> =
     (case e p (CreatePartitionCmdTmpl device partName) \<sigma> of
        ((stdout, stderr, err), \<sigma>') \<Rightarrow>
          if err \<noteq> None then (err, \<sigma>') else (None, \<sigma>'))"

definition DeletePartition ::
  "unicode \<Rightarrow> 's Partition \<Rightarrow> string \<Rightarrow> string \<Rightarrow> 's \<Rightarrow> error option \<times> 's" where
  "DeletePartition u p device partNum \<sigma> =
     (case e p (DeletePartitionCmdTmpl device partNum) \<sigma> of
        ((stdout, stderr, err), \<sigma>') \<Rightarrow>
          (case err of
             Some er \<Rightarrow>
               (Some (Errorf (''unable to delete partition '' @ Quote u partNum
                              @ '' from device '' @ device @ '': '' @ stderr
                              @ '', error: '' @ Error er)), \<sigma>')
           | None \<Rightarrow> (None, \<sigma>')))"

definition SetPartitionUUID ::
  "'s Partition \<Rightarrow> string \<Rightarrow> string \<Rightarrow> string \<Rightarrow> 's \<Rightarrow> error option \<times> 's" where
  "SetPartitionUUID p device partNum partUUID \<sigma> =
     (case e p (SetPartitionUUIDCmdTmpl device partNum partUUID) \<sigma> of
        ((stdout, stderr, err), \<sigma>') \<Rightarrow>
          if err \<noteq> None then (err, \<sigma>') else (None, \<sigma>'))"

definition partitionPresentation :: string where
  "partitionPresentation = ''Partition unique GUID:''"

text \<open>
  The loop of \<open>GetPartitionUUID\<close> over the lines of the output. It returns from inside
  the loop at the first line that passes both tests; the statement behind the loop
  builds the error.
\<close>

fun scanLines :: "unicode \<Rightarrow> string \<Rightarrow> string list \<Rightarrow> string \<times> error option" where
  "scanLines u device [] =
     ([], Some (Errorf (''unable to get partition GUID for device '' @ device)))"
| "scanLines u device (line # lines) =
     (if Contains line partitionPresentation
      then (let res = Split (TrimSpace line) partitionPresentation
            in if 1 < length res then (ToLower u (TrimSpace (res ! 1)), None)
               else scanLines u device lines)
      else scanLines u device lines)"

definition GetPartitionUUID ::
  "unicode \<Rightarrow> 's Partition \<Rightarrow> string \<Rightarrow> string \<Rightarrow> 's \<Rightarrow> (string \<times> error option) \<times> 's" where
  "GetPartitionUUID u p device partNum \<sigma> =
     (case e p (GetPartitionUUIDCmdTmpl device partNum) \<sigma> of
        ((stdout, stderr, err), \<sigma>') \<Rightarrow>
          if err \<noteq> None then (([], err), \<sigma>')
          else (scanLines u device (Split stdout [CHR 0x0A]), \<sigma>'))"

definition SyncPartitionTable :: "'s Partition \<Rightarrow> string \<Rightarrow> 's \<Rightarrow> error option \<times> 's" where
  "SyncPartitionTable p device \<sigma> =
     (case e p (PartprobeCmdTmpl device) \<sigma> of
        ((stdout, stderr, err), \<sigma>') \<Rightarrow>
          if err \<noteq> None then (err, \<sigma>') else (None, \<sigma>'))"

section \<open>Auxiliary definitions for the statements\<close>

text \<open>The bytes that occur in the encoding of a white space rune.\<close>

definition spaceBytes :: "char set" where
  "spaceBytes = \<Union> (set ` set unicodeSpaces)"

text \<open>
  Tables for closed examples. The examples run on printable ASCII input, where
  \<open>ToLower\<close> and \<open>Quote\<close> do not consult them.
\<close>

definition asciiTables :: unicode where
  "asciiTables = \<lparr>MapToLower = map lowerByte, QuoteOther = concat \<circ> map escapeByte\<rparr>"

text \<open>
  The spec's reading of the probe output, "split on whitespace; the token at index 1 is
  the type": the tokens are the maximal runs of bytes that are not white space. This
  definition follows the spec's words, not the source.
\<close>

definition isSpaceByte :: "char \<Rightarrow> bool" where
  "isSpaceByte c = (c \<in> set [CHR 0x09, CHR 0x0A, CHR 0x0B, CHR 0x0C, CHR 0x0D, CHR 0x20])"

fun tokensFrom :: "string \<Rightarrow> string \<Rightarrow> string list" where
  "tokensFrom cur [] = (if cur = [] then [] else [cur])"
| "tokensFrom cur (c # cs) =
     (if isSpaceByte c
      then (if cur = [] then tokensFrom [] cs else cur # tokensFrom [] cs)
      else tokensFrom (cur @ [c]) cs)"

definition whitespaceTokens :: "string \<Rightarrow> string list" where
  "whitespaceTokens s = tokensFrom [] s"

text \<open>The error that \<open>p.e.RunCmd(cmd)\<close> returns when it is called in state \<open>\<sigma>\<close>.\<close>

definition RunCmd_err :: "'s Partition \<Rightarrow> string \<Rightarrow> 's \<Rightarrow> error option" where
  "RunCmd_err p cmd \<sigma> = snd (snd (fst (e p cmd \<sigma>)))"

text \<open>A printable ASCII byte that \<open>Quote\<close> copies: neither the double quote nor the backslash.\<close>

definition plainByte :: "char \<Rightarrow> bool" where
  "plainByte c = (isPrintASCII c \<and> c \<noteq> CHR 0x22 \<and> c \<noteq> CHR 0x5C)"

text \<open>
  The output of \<open>sgdisk /dev/sdy --info=1\<close> that the comment in \<open>GetPartitionUUID\<close>
  quotes, one line feed behind each line.
\<close>

definition sgdiskInfo :: string where
  "sgdiskInfo =
     ''Partition GUID code: 0FC63DAF-8483-4772-8E79-3D69D8477DE4 (Linux filesystem)'' @ [CHR 0x0A]
     @ ''Partition unique GUID: 5209CFD8-3AB1-4720-BCEA-DFA80315EC92'' @ [CHR 0x0A]
     @ ''First sector: 2048 (at 1024.0 KiB)'' @ [CHR 0x0A]
     @ ''Last sector: 999423 (at 488.0 MiB)'' @ [CHR 0x0A]
     @ ''Partition size: 997376 sectors (487.0 MiB)'' @ [CHR 0x0A]
     @ ''Attribute flags: 0000000000000000'' @ [CHR 0x0A]
     @ ''Partition name: '' @ [CHR 0x27, CHR 0x27] @ [CHR 0x0A]"

text \<open>
  A report with lines that end in carriage return and line feed: the label line is
  indented by a tab and has spaces before and behind the GUID, and a second line with
  the label follows it.
\<close>

definition sgdiskInfoCRLF :: string where
  "sgdiskInfoCRLF =
     ''Partition GUID code: 0FC63DAF-8483-4772-8E79-3D69D8477DE4 (Linux filesystem)'' @ [CHR 0x0D, CHR 0x0A]
     @ [CHR 0x09] @ ''Partition unique GUID:  5209CFD8-3AB1-4720-BCEA-DFA80315EC92 '' @ [CHR 0x0D, CHR 0x0A]
     @ ''Partition unique GUID: 00000000-0000-0000-0000-000000000000'' @ [CHR 0x0D, CHR 0x0A]"

section \<open>Facts about the library model\<close>

lemma find_SomeD: "find P xs = Some x \<Longrightarrow> P x \<and> x \<in> set xs"
  by (induction xs) (auto split: if_splits)

subsection \<open>Index, Contains and Split\<close>

lemma Contains_iff_sublist: "Contains s sub \<longleftrightarrow> sublist sub s"
  unfolding Contains_def
  by (induction s) (auto simp: sublist_Cons_right)

lemma Index_None_iff: "Index s sub = None \<longleftrightarrow> \<not> Contains s sub"
  by (simp add: Contains_def)

lemma Split_no_sep: "sep \<noteq> [] \<Longrightarrow> \<not> Contains s sep \<Longrightarrow> Split s sep = [s]"
  by (simp add: Split.simps Contains_def)

lemma Split_length_gt1: "sep \<noteq> [] \<Longrightarrow> Contains s sep \<Longrightarrow> 1 < length (Split s sep)"
proof -
  assume ne: "sep \<noteq> []" and "Contains s sep"
  then obtain m where m: "Index s sep = Some m" by (auto simp: Contains_def)
  have "Split (drop (m + length sep) s) sep \<noteq> []"
    by (subst Split.simps) (simp add: ne split: option.split)
  with ne m show ?thesis
    by (subst Split.simps) (simp add: Suc_lessI)
qed

lemma Split_length_iff: "sep \<noteq> [] \<Longrightarrow> 1 < length (Split s sep) \<longleftrightarrow> Contains s sep"
proof
  assume ne: "sep \<noteq> []" and len: "1 < length (Split s sep)"
  show "Contains s sep"
  proof (rule ccontr)
    assume "\<not> Contains s sep"
    with ne have "Split s sep = [s]" by (rule Split_no_sep)
    with len show False by simp
  qed
qed (rule Split_length_gt1)

lemma Index_Some_split:
  "Index s sep = Some m \<Longrightarrow> s = take m s @ sep @ drop (m + length sep) s"
proof (induction s arbitrary: m)
  case Nil
  then show ?case by (simp split: if_splits)
next
  case (Cons c cs)
  show ?case
  proof (cases "prefix sep (c # cs)")
    case True
    with Cons.prems have "m = 0" by simp
    with True show ?thesis by (auto simp: prefix_def)
  next
    case False
    with Cons.prems obtain k where k: "Index cs sep = Some k" "m = Suc k" by auto
    from Cons.IH [OF k(1)] k(2) show ?thesis by simp
  qed
qed

lemma Index_first:
  "sep \<noteq> [] \<Longrightarrow> \<not> sublist sep (a @ butlast sep) \<Longrightarrow> Index (a @ sep @ b) sep = Some (length a)"
proof (induction a)
  case Nil
  then show ?case by (cases sep) simp_all
next
  case (Cons c a)
  from Cons.prems(2) have np: "\<not> prefix sep (c # a @ butlast sep)"
    and ns: "\<not> sublist sep (a @ butlast sep)"
    by (simp_all add: sublist_Cons_right)
  have "\<not> prefix sep (c # a @ sep @ b)"
  proof
    assume ps: "prefix sep (c # a @ sep @ b)"
    have "c # a @ sep @ b = (c # a @ butlast sep) @ (last sep # b)"
      using Cons.prems(1) by simp
    then have "prefix (c # a @ butlast sep) (c # a @ sep @ b)"
      by (metis prefixI)
    moreover have "length sep \<le> length (c # a @ butlast sep)"
      by simp
    ultimately have "prefix sep (c # a @ butlast sep)"
      using ps by (metis prefix_length_prefix)
    with np show False ..
  qed
  with Cons.IH [OF Cons.prems(1) ns] show ?case by simp
qed

lemma Split_first:
  "sep \<noteq> [] \<Longrightarrow> \<not> sublist sep (a @ butlast sep) \<Longrightarrow> Split (a @ sep @ b) sep = a # Split b sep"
  by (subst Split.simps) (simp add: Index_first)

lemma Index_zero_iff: "Index s sep = Some 0 \<longleftrightarrow> prefix sep s"
  by (cases s) auto

lemma Index_Some_first:
  "sep \<noteq> [] \<Longrightarrow> Index s sep = Some m \<Longrightarrow> \<not> sublist sep (take m s @ butlast sep)"
proof (induction s arbitrary: m)
  case Nil
  then show ?case by simp
next
  case (Cons c cs)
  show ?case
  proof (cases "prefix sep (c # cs)")
    case True
    with Cons.prems have "m = 0" by simp
    moreover have "\<not> sublist sep (butlast sep)"
    proof
      assume "sublist sep (butlast sep)"
      then have "length sep \<le> length (butlast sep)" by (rule sublist_length_le)
      moreover have "length (butlast sep) = length sep - 1" by simp
      moreover have "0 < length sep"
        using Cons.prems(1) by simp
      ultimately show False by linarith
    qed
    ultimately show ?thesis by simp
  next
    case False
    with Cons.prems obtain k where k: "Index cs sep = Some k" "m = Suc k" by auto
    have ns: "\<not> sublist sep (take k cs @ butlast sep)"
      using Cons.IH [OF Cons.prems(1) k(1)] .
    have np: "\<not> prefix sep (c # take k cs @ butlast sep)"
    proof
      assume ps: "prefix sep (c # take k cs @ butlast sep)"
      define t where "t = take k cs"
      define d where "d = drop (k + length sep) cs"
      have cs: "cs = t @ sep @ d"
        unfolding t_def d_def using k(1) by (rule Index_Some_split)
      have "t @ sep @ d = (t @ butlast sep) @ (last sep # d)"
        using Cons.prems(1) by simp
      then have "prefix (t @ butlast sep) (t @ sep @ d)"
        by (metis prefixI)
      then have "prefix (c # t @ butlast sep) (c # t @ sep @ d)"
        by simp
      then have "prefix (c # t @ butlast sep) (c # cs)"
        by (simp only: cs [symmetric])
      then have "prefix (c # take k cs @ butlast sep) (c # cs)"
        by (simp only: t_def)
      with ps have "prefix sep (c # cs)" by (rule prefix_order.trans)
      with False show False ..
    qed
    from ns np k(2) show ?thesis by (simp add: sublist_Cons_right)
  qed
qed

lemma hd_Split_empty_iff:
  assumes "sep \<noteq> []"
  shows "hd (Split b sep) = [] \<longleftrightarrow> b = [] \<or> prefix sep b"
proof (cases "Index b sep")
  case None
  then have "\<not> prefix sep b" using Index_zero_iff [of b sep] by simp
  with None assms show ?thesis by (subst Split.simps) simp
next
  case (Some m)
  with assms have "b \<noteq> []" by (cases b) auto
  moreover have "m = 0 \<longleftrightarrow> prefix sep b"
    using Some Index_zero_iff [of b sep] by auto
  ultimately show ?thesis using Some assms
    by (subst Split.simps) simp
qed

subsection \<open>TrimSpace\<close>

lemma TrimLeft_suffix: "suffix (TrimLeft s) s"
proof (induction s rule: TrimLeft.induct)
  case (1 s)
  show ?case
  proof (cases "find (\<lambda>w. prefix w s) unicodeSpaces")
    case None
    then show ?thesis by (subst TrimLeft.simps) simp
  next
    case (Some w)
    then have "suffix (TrimLeft (drop (length w) s)) (drop (length w) s)" by (rule "1.IH")
    then have "suffix (TrimLeft (drop (length w) s)) s"
      by (rule suffix_order.trans) (rule suffix_drop)
    with Some show ?thesis by (subst TrimLeft.simps) simp
  qed
qed

lemma TrimRight_prefix: "prefix (TrimRight s) s"
proof (induction s rule: TrimRight.induct)
  case (1 s)
  show ?case
  proof (cases "find (\<lambda>w. suffix w s) unicodeSpaces")
    case None
    then show ?thesis by (subst TrimRight.simps) simp
  next
    case (Some w)
    then have "prefix (TrimRight (take (length s - length w) s)) (take (length s - length w) s)"
      by (rule "1.IH")
    then have "prefix (TrimRight (take (length s - length w) s)) s"
      by (rule prefix_order.trans) (rule take_is_prefix)
    with Some show ?thesis by (subst TrimRight.simps) simp
  qed
qed

lemma TrimSpace_sublist: "sublist (TrimSpace s) s"
proof -
  have "sublist (TrimRight (TrimLeft s)) (TrimLeft s)"
    using TrimRight_prefix by (rule prefix_imp_sublist)
  moreover have "sublist (TrimLeft s) s"
    using TrimLeft_suffix by (rule suffix_imp_sublist)
  ultimately show ?thesis
    unfolding TrimSpace_def by (rule sublist_order.order.trans)
qed

lemma TrimSpace_Contains: "Contains (TrimSpace s) x \<Longrightarrow> Contains s x"
  unfolding Contains_iff_sublist
  using TrimSpace_sublist by (rule sublist_order.order.trans [rotated])

lemma prefix_notin_append: "c \<notin> set w \<Longrightarrow> prefix w (ps @ c # xs) \<longleftrightarrow> prefix w ps"
  by (auto simp: prefix_append prefix_Cons)

lemma prefix_space_append:
  assumes "c \<notin> spaceBytes" and "w \<in> set unicodeSpaces"
  shows "prefix w (ps @ c # xs) \<longleftrightarrow> prefix w ps"
proof -
  from assms have "c \<notin> set w" by (auto simp: spaceBytes_def)
  then show ?thesis by (rule prefix_notin_append)
qed

lemma suffix_space_append:
  assumes "c \<notin> spaceBytes" and "w \<in> set unicodeSpaces"
  shows "suffix w (xs @ c # ps) \<longleftrightarrow> suffix w ps"
proof -
  from assms have "c \<notin> set (rev w)" by (auto simp: spaceBytes_def)
  then have "prefix (rev w) (rev ps @ c # rev xs) \<longleftrightarrow> prefix (rev w) (rev ps)"
    by (rule prefix_notin_append)
  then show ?thesis by (simp add: suffix_to_prefix)
qed

lemma TrimLeft_stops:
  assumes c: "c \<notin> spaceBytes"
  shows "TrimLeft (ps @ c # xs) = TrimLeft ps @ c # xs"
proof (induction ps rule: TrimLeft.induct)
  case (1 ps)
  have eq: "find (\<lambda>w. prefix w (ps @ c # xs)) unicodeSpaces = find (\<lambda>w. prefix w ps) unicodeSpaces"
    by (rule find_cong) (simp_all add: prefix_space_append [OF c])
  show ?case
  proof (cases "find (\<lambda>w. prefix w ps) unicodeSpaces")
    case None
    with eq show ?thesis
      by (subst TrimLeft.simps, subst (2) TrimLeft.simps) simp
  next
    case (Some w)
    then have "prefix w ps" by (auto dest: find_SomeD)
    then have "length w \<le> length ps" by (rule prefix_length_le)
    then have "drop (length w) (ps @ c # xs) = drop (length w) ps @ c # xs" by simp
    with Some eq "1.IH" [OF Some] show ?thesis
      by (subst TrimLeft.simps, subst (2) TrimLeft.simps) simp
  qed
qed

lemma TrimRight_stops:
  assumes c: "c \<notin> spaceBytes"
  shows "TrimRight (xs @ c # ps) = xs @ c # TrimRight ps"
proof (induction ps rule: TrimRight.induct)
  case (1 ps)
  have eq: "find (\<lambda>w. suffix w (xs @ c # ps)) unicodeSpaces = find (\<lambda>w. suffix w ps) unicodeSpaces"
    by (rule find_cong) (simp_all add: suffix_space_append [OF c])
  show ?case
  proof (cases "find (\<lambda>w. suffix w ps) unicodeSpaces")
    case None
    with eq show ?thesis
      by (subst TrimRight.simps, subst (2) TrimRight.simps) simp
  next
    case (Some w)
    then have "suffix w ps" by (auto dest: find_SomeD)
    then have "length w \<le> length ps" by (rule suffix_length_le)
    then have "take (length (xs @ c # ps) - length w) (xs @ c # ps)
               = xs @ c # take (length ps - length w) ps" by (simp add: Suc_diff_le)
    with Some eq "1.IH" [OF Some] show ?thesis
      by (subst TrimRight.simps, subst (2) TrimRight.simps) simp
  qed
qed

lemma TrimSpace_around:
  assumes "c1 \<notin> spaceBytes" and "c2 \<notin> spaceBytes"
  shows "TrimSpace (a @ c1 # mid @ c2 # b) = TrimLeft a @ c1 # mid @ c2 # TrimRight b"
proof -
  have "TrimLeft (a @ c1 # mid @ c2 # b) = TrimLeft a @ c1 # mid @ c2 # b"
    using assms(1) by (rule TrimLeft_stops)
  moreover have "TrimRight ((TrimLeft a @ c1 # mid) @ c2 # b) = (TrimLeft a @ c1 # mid) @ c2 # TrimRight b"
    using assms(2) by (rule TrimRight_stops)
  ultimately show ?thesis by (simp add: TrimSpace_def)
qed

lemma partitionPresentation_ends:
  "partitionPresentation = CHR ''P'' # ''artition unique GUID'' @ [CHR '':'']"
  "CHR ''P'' \<notin> spaceBytes" "CHR '':'' \<notin> spaceBytes"
  by (simp_all add: partitionPresentation_def spaceBytes_def unicodeSpaces_def)

lemma TrimSpace_keeps_label:
  assumes "Contains line partitionPresentation"
  shows "Contains (TrimSpace line) partitionPresentation"
proof -
  from assms obtain a b where "line = a @ partitionPresentation @ b"
    by (auto simp: Contains_iff_sublist sublist_def)
  then have "line = a @ CHR ''P'' # ''artition unique GUID'' @ CHR '':'' # b"
    by (simp only: partitionPresentation_ends(1) append.simps append_assoc)
  then have "TrimSpace line = TrimLeft a @ CHR ''P'' # ''artition unique GUID'' @ CHR '':'' # TrimRight b"
    by (simp only: TrimSpace_around [OF partitionPresentation_ends(2,3)])
  then have "TrimSpace line = TrimLeft a @ partitionPresentation @ TrimRight b"
    by (simp only: partitionPresentation_ends(1) append.simps append_assoc)
  then show ?thesis by (simp only: Contains_iff_sublist sublist_appendI)
qed

subsection \<open>Templates, the allow-list, the spy\<close>

lemmas tmpl_defs = PartprobeDeviceCmdTmpl_def PartprobeCmdTmpl_def CreatePartitionTableCmdTmpl_def
  CreatePartitionCmdTmpl_def DeletePartitionCmdTmpl_def SetPartitionUUIDCmdTmpl_def
  GetPartitionUUIDCmdTmpl_def parted_def partprobe_def sgdisk_def

lemma ContainsString_supportedTypes: "ContainsString supportedTypes t \<longleftrightarrow> t = ''gpt''"
  by (auto simp: ContainsString_def supportedTypes_def PartitionGPT_def)

lemma e_spy: "e (NewPartition (spy r)) cmd calls = (r, calls @ [cmd])"
  by (simp add: NewPartition_def spy_def)

lemma Quote_plain: "list_all plainByte s \<Longrightarrow> Quote u s = [CHR 0x22] @ s @ [CHR 0x22]"
proof -
  assume a: "list_all plainByte s"
  then have "list_all isPrintASCII s" by (induction s) (simp_all add: plainByte_def)
  moreover from a have "concat (map escapeByte s) = s"
    by (induction s) (simp_all add: plainByte_def escapeByte_def)
  ultimately show ?thesis by (simp add: Quote_def)
qed

subsection \<open>The second element of a split\<close>

lemma Split_nonempty: "sep \<noteq> [] \<Longrightarrow> Split s sep \<noteq> []"
  by (subst Split.simps) (simp split: option.split)

lemma Split_Some:
  "sep \<noteq> [] \<Longrightarrow> Index s sep = Some m \<Longrightarrow>
     Split s sep = take m s # Split (drop (m + length sep) s) sep"
  by (subst Split.simps) simp

lemma Split_second_nonempty_iff:
  assumes ne: "sep \<noteq> []"
  shows "(1 < length (Split t sep) \<and> Split t sep ! 1 \<noteq> []) \<longleftrightarrow>
         (\<exists>pre rest. t = pre @ sep @ rest \<and> \<not> sublist sep (pre @ butlast sep)
                      \<and> rest \<noteq> [] \<and> \<not> prefix sep rest)"
proof (cases "Index t sep")
  case None
  then have nc: "\<not> Contains t sep" by (simp add: Contains_def)
  with ne have "Split t sep = [t]" by (rule Split_no_sep)
  moreover have "\<not> (\<exists>pre rest. t = pre @ sep @ rest)"
    using nc by (auto simp: Contains_iff_sublist sublist_def)
  ultimately show ?thesis by auto
next
  case (Some m)
  define rest where "rest = drop (m + length sep) t"
  have t: "t = take m t @ sep @ rest"
    unfolding rest_def using Some by (rule Index_Some_split)
  have first: "\<not> sublist sep (take m t @ butlast sep)"
    using ne Some by (rule Index_Some_first)
  have sp: "Split t sep = take m t # Split rest sep"
    unfolding rest_def using ne Some by (rule Split_Some)
  have "Split rest sep \<noteq> []" using ne by (rule Split_nonempty)
  then have second: "Split t sep ! 1 = hd (Split rest sep)" and len: "1 < length (Split t sep)"
    by (simp_all add: sp hd_conv_nth)
  have lhs: "(1 < length (Split t sep) \<and> Split t sep ! 1 \<noteq> []) \<longleftrightarrow> (rest \<noteq> [] \<and> \<not> prefix sep rest)"
    using len second hd_Split_empty_iff [OF ne, of rest] by simp
  show ?thesis
  proof
    assume "1 < length (Split t sep) \<and> Split t sep ! 1 \<noteq> []"
    with lhs have "rest \<noteq> [] \<and> \<not> prefix sep rest" by simp
    with t first show "\<exists>pre rest. t = pre @ sep @ rest \<and> \<not> sublist sep (pre @ butlast sep)
                      \<and> rest \<noteq> [] \<and> \<not> prefix sep rest"
      by blast
  next
    assume "\<exists>pre rest. t = pre @ sep @ rest \<and> \<not> sublist sep (pre @ butlast sep)
                      \<and> rest \<noteq> [] \<and> \<not> prefix sep rest"
    then obtain pre' rest' where t': "t = pre' @ sep @ rest'"
      and first': "\<not> sublist sep (pre' @ butlast sep)"
      and r': "rest' \<noteq> []" "\<not> prefix sep rest'"
      by blast
    have "Index (pre' @ sep @ rest') sep = Some (length pre')"
      using ne first' by (rule Index_first)
    with Some t' have m: "m = length pre'" by simp
    have "rest = drop (length pre' + length sep) (pre' @ sep @ rest')"
      unfolding rest_def m using t' by simp
    then have "rest = rest'" by simp
    with r' lhs show "1 < length (Split t sep) \<and> Split t sep ! 1 \<noteq> []" by simp
  qed
qed

lemma Index_char:
  "Index s [c] = (if c \<in> set s then Some (length (takeWhile (\<lambda>x. x \<noteq> c) s)) else None)"
  by (induction s) auto

lemma Split_char_length: "length (Split s [c]) < 2 \<longleftrightarrow> c \<notin> set s"
proof -
  have "1 < length (Split s [c]) \<longleftrightarrow> Contains s [c]"
    by (rule Split_length_iff) simp
  also have "\<dots> \<longleftrightarrow> c \<in> set s"
    by (simp add: Contains_def Index_char)
  finally show ?thesis by auto
qed

lemma hd_Split_char: "hd (Split b [c]) = takeWhile (\<lambda>x. x \<noteq> c) b"
proof (cases "c \<in> set b")
  case True
  then have "Index b [c] = Some (length (takeWhile (\<lambda>x. x \<noteq> c) b))"
    by (simp add: Index_char)
  then have "hd (Split b [c]) = take (length (takeWhile (\<lambda>x. x \<noteq> c) b)) b"
    by (subst Split.simps) simp
  then show ?thesis by (simp add: takeWhile_eq_take [symmetric])
next
  case False
  then have "Index b [c] = None" by (simp add: Index_char)
  then have h: "hd (Split b [c]) = b" by (subst Split.simps) simp
  from False have tw: "takeWhile (\<lambda>x. x \<noteq> c) b = b" by auto
  show ?thesis by (simp only: h tw)
qed

lemma Split_char_second:
  assumes "c \<notin> set a"
  shows "Split (a @ [c] @ b) [c] ! 1 = takeWhile (\<lambda>x. x \<noteq> c) b"
proof -
  from assms have "takeWhile (\<lambda>x. x \<noteq> c) (a @ c # b) = a" by (auto simp: takeWhile_tail)
  then have "Index (a @ [c] @ b) [c] = Some (length a)"
    by (simp add: Index_char)
  then have "Split (a @ [c] @ b) [c] = a # Split b [c]"
    by (subst Split.simps) simp
  moreover have "Split b [c] \<noteq> []" by (rule Split_nonempty) simp
  ultimately show ?thesis by (simp add: hd_conv_nth hd_Split_char [symmetric])
qed

text \<open>Unfolding white space trimming on a given string.\<close>

lemmas trim_eval = TrimSpace_def TrimLeft.simps TrimRight.simps unicodeSpaces_def suffix_to_prefix

subsection \<open>The loop of GetPartitionUUID\<close>

lemma find_first:
  "list_all (\<lambda>x. \<not> P x) before \<Longrightarrow> P x \<Longrightarrow> find P (before @ x # after) = Some x"
  by (induction before) simp_all

lemma find_None_all: "find P xs = None \<longleftrightarrow> list_all (\<lambda>x. \<not> P x) xs"
  by (induction xs) simp_all

lemma scanLines_first_match:
  "scanLines u device lines =
     (case find (\<lambda>l. Contains l partitionPresentation) lines of
        None \<Rightarrow> ([], Some (Errorf (''unable to get partition GUID for device '' @ device)))
      | Some l \<Rightarrow> (ToLower u (TrimSpace (Split (TrimSpace l) partitionPresentation ! 1)), None))"
proof (induction lines)
  case Nil
  show ?case by simp
next
  case (Cons line lines)
  show ?case
  proof (cases "Contains line partitionPresentation")
    case True
    then have "Contains (TrimSpace line) partitionPresentation" by (rule TrimSpace_keeps_label)
    then have "1 < length (Split (TrimSpace line) partitionPresentation)"
      by (rule Split_length_gt1 [rotated]) (simp add: partitionPresentation_def)
    with True show ?thesis by (simp add: Let_def)
  next
    case False
    with Cons.IH show ?thesis by simp
  qed
qed

lemma lower_guid:
  "map lowerByte ''5209CFD8-3AB1-4720-BCEA-DFA80315EC92'' = ''5209cfd8-3ab1-4720-bcea-dfa80315ec92''"
  by code_simp

lemma ascii_guid: "list_all isASCII ''5209CFD8-3AB1-4720-BCEA-DFA80315EC92''"
  by (simp add: isASCII_def)

lemma Split_sgdiskInfo:
  "Split sgdiskInfo [CHR 0x0A] =
     [''Partition GUID code: 0FC63DAF-8483-4772-8E79-3D69D8477DE4 (Linux filesystem)'',
      ''Partition unique GUID: 5209CFD8-3AB1-4720-BCEA-DFA80315EC92'',
      ''First sector: 2048 (at 1024.0 KiB)'',
      ''Last sector: 999423 (at 488.0 MiB)'',
      ''Partition size: 997376 sectors (487.0 MiB)'',
      ''Attribute flags: 0000000000000000'',
      ''Partition name: '' @ [CHR 0x27, CHR 0x27],
      []]"
  by (simp add: sgdiskInfo_def Split.simps)

lemma scanLines_sgdiskInfo:
  "scanLines u device (Split sgdiskInfo [CHR 0x0A]) = (''5209cfd8-3ab1-4720-bcea-dfa80315ec92'', None)"
proof -
  have 1: "\<not> Contains ''Partition GUID code: 0FC63DAF-8483-4772-8E79-3D69D8477DE4 (Linux filesystem)''
              partitionPresentation"
    by (simp add: Contains_def partitionPresentation_def)
  have 2: "Contains ''Partition unique GUID: 5209CFD8-3AB1-4720-BCEA-DFA80315EC92'' partitionPresentation"
    by (simp add: Contains_def partitionPresentation_def)
  have 3: "TrimSpace ''Partition unique GUID: 5209CFD8-3AB1-4720-BCEA-DFA80315EC92''
           = ''Partition unique GUID: 5209CFD8-3AB1-4720-BCEA-DFA80315EC92''"
    by (simp add: trim_eval)
  have 4: "Split ''Partition unique GUID: 5209CFD8-3AB1-4720-BCEA-DFA80315EC92'' partitionPresentation
           = [[], '' 5209CFD8-3AB1-4720-BCEA-DFA80315EC92'']"
    by (simp add: Split.simps partitionPresentation_def)
  have 5: "TrimSpace '' 5209CFD8-3AB1-4720-BCEA-DFA80315EC92'' = ''5209CFD8-3AB1-4720-BCEA-DFA80315EC92''"
    by (simp add: trim_eval)
  have 6: "ToLower u ''5209CFD8-3AB1-4720-BCEA-DFA80315EC92'' = ''5209cfd8-3ab1-4720-bcea-dfa80315ec92''"
    unfolding ToLower_def using ascii_guid lower_guid by simp
  show ?thesis
    by (simp only: Split_sgdiskInfo scanLines.simps 1 2 3 4 5 6 if_True if_False Let_def
          list.size nth_Cons_Suc nth_Cons_0 One_nat_def) simp
qed

lemma GetPartitionUUID_no_label_line:
  assumes "e p (GetPartitionUUIDCmdTmpl device partNum) \<sigma> = ((stdout, stderr, None), \<sigma>')"
    and "list_all (\<lambda>l. \<not> Contains l partitionPresentation) (Split stdout [CHR 0x0A])"
  shows "GetPartitionUUID u p device partNum \<sigma>
         = (([], Some (Errorf (''unable to get partition GUID for device '' @ device))), \<sigma>')"
proof -
  from assms(2) have "find (\<lambda>l. Contains l partitionPresentation) (Split stdout [CHR 0x0A]) = None"
    by (simp add: find_None_all)
  with assms(1) show ?thesis
    by (simp add: GetPartitionUUID_def scanLines_first_match)
qed

lemma GetPartitionUUID_label_line_no_error:
  assumes "e p (GetPartitionUUIDCmdTmpl device partNum) \<sigma> = ((stdout, stderr, None), \<sigma>')"
    and "\<not> list_all (\<lambda>l. \<not> Contains l partitionPresentation) (Split stdout [CHR 0x0A])"
  shows "snd (fst (GetPartitionUUID u p device partNum \<sigma>)) = None"
proof -
  from assms(2) obtain l where "find (\<lambda>l. Contains l partitionPresentation) (Split stdout [CHR 0x0A]) = Some l"
    by (auto simp: find_None_all [symmetric])
  with assms(1) show ?thesis
    by (simp add: GetPartitionUUID_def scanLines_first_match)
qed

subsection \<open>White space around a text\<close>

lemma unicodeSpaces_shape:
  assumes "w \<in> set unicodeSpaces"
  shows "w \<noteq> []"
    and "length w = (if (of_char (hd w) :: nat) < 0x80 then 1 else if (of_char (hd w) :: nat) < 0xE0 then 2 else 3)"
    and "\<not> (0x80 \<le> (of_char (hd w) :: nat) \<and> (of_char (hd w) :: nat) < 0xC0)"
    and "list_all (\<lambda>c. 0x80 \<le> (of_char c :: nat) \<and> (of_char c :: nat) < 0xC0) (tl w)"
  using assms unfolding unicodeSpaces_def by auto

lemma unicodeSpaces_prefix_free:
  assumes "w \<in> set unicodeSpaces" and "w' \<in> set unicodeSpaces" and "prefix w' w"
  shows "w' = w"
proof -
  from assms(3) obtain zs where w: "w = w' @ zs" by (auto simp: prefix_def)
  from assms(2) have ne: "w' \<noteq> []" by (rule unicodeSpaces_shape)
  with w have "hd w = hd w'" by simp
  with unicodeSpaces_shape(2) [OF assms(1)] unicodeSpaces_shape(2) [OF assms(2)]
  have "length w = length w'" by simp
  with w show ?thesis by simp
qed

lemma unicodeSpaces_suffix_free:
  assumes "w \<in> set unicodeSpaces" and "w' \<in> set unicodeSpaces" and "suffix w' w"
  shows "w' = w"
proof (rule ccontr)
  assume neq: "w' \<noteq> w"
  from assms(3) obtain zs where w: "w = zs @ w'" by (auto simp: suffix_def)
  with neq have zs: "zs \<noteq> []" by auto
  from assms(2) have ne: "w' \<noteq> []" by (rule unicodeSpaces_shape)
  from zs w have "tl w = tl zs @ w'" by simp
  with ne have "hd w' \<in> set (tl w)" by (cases w') simp_all
  with unicodeSpaces_shape(4) [OF assms(1)]
  have "0x80 \<le> (of_char (hd w') :: nat) \<and> (of_char (hd w') :: nat) < 0xC0"
    by (simp add: list_all_iff)
  with unicodeSpaces_shape(3) [OF assms(2)] show False ..
qed

lemma find_Some_ex: "x \<in> set xs \<Longrightarrow> P x \<Longrightarrow> \<exists>y. find P xs = Some y"
  by (induction xs) auto

lemma TrimLeft_space:
  assumes w: "w \<in> set unicodeSpaces"
  shows "TrimLeft (w @ s) = TrimLeft s"
proof -
  have pw: "prefix w (w @ s)" by simp
  with w obtain w' where f: "find (\<lambda>x. prefix x (w @ s)) unicodeSpaces = Some w'"
    using find_Some_ex [of w unicodeSpaces "\<lambda>x. prefix x (w @ s)"] by blast
  then have w': "prefix w' (w @ s)" "w' \<in> set unicodeSpaces"
    using find_SomeD [of "\<lambda>x. prefix x (w @ s)" unicodeSpaces w'] by simp_all
  from w'(1) pw have "prefix w' w \<or> prefix w w'" by (rule prefix_same_cases)
  with w w'(2) have "w' = w" by (auto dest: unicodeSpaces_prefix_free)
  with f show ?thesis by (subst TrimLeft.simps) simp
qed

lemma TrimLeft_spaces:
  "list_all (\<lambda>w. w \<in> set unicodeSpaces) sp \<Longrightarrow> TrimLeft (concat sp @ s) = TrimLeft s"
  by (induction sp) (simp_all add: TrimLeft_space)

lemma TrimRight_space:
  assumes w: "w \<in> set unicodeSpaces"
  shows "TrimRight (s @ w) = TrimRight s"
proof -
  have sw: "suffix w (s @ w)" by (simp add: suffix_def)
  with w obtain w' where f: "find (\<lambda>x. suffix x (s @ w)) unicodeSpaces = Some w'"
    using find_Some_ex [of w unicodeSpaces "\<lambda>x. suffix x (s @ w)"] by blast
  then have w': "suffix w' (s @ w)" "w' \<in> set unicodeSpaces"
    using find_SomeD [of "\<lambda>x. suffix x (s @ w)" unicodeSpaces w'] by simp_all
  from w'(1) sw have "suffix w' w \<or> suffix w w'" by (rule suffix_same_cases)
  with w w'(2) have "w' = w" by (auto dest: unicodeSpaces_suffix_free)
  with f show ?thesis by (subst TrimRight.simps) simp
qed

lemma TrimRight_spaces:
  "list_all (\<lambda>w. w \<in> set unicodeSpaces) sp \<Longrightarrow> TrimRight (s @ concat sp) = TrimRight s"
proof (induction sp rule: rev_induct)
  case Nil
  show ?case by simp
next
  case (snoc w sp)
  then have "w \<in> set unicodeSpaces" and "TrimRight (s @ concat sp) = TrimRight s" by simp_all
  moreover have "s @ concat (sp @ [w]) = (s @ concat sp) @ w" by simp
  ultimately show ?case by (simp only: TrimRight_space)
qed

lemma TrimLeft_Nil: "TrimLeft [] = []"
  by (subst TrimLeft.simps) (simp add: unicodeSpaces_def)

lemma TrimRight_Nil: "TrimRight [] = []"
  by (subst TrimRight.simps) (simp add: unicodeSpaces_def)

lemma TrimSpace_core:
  assumes "s \<noteq> []" and "hd s \<notin> spaceBytes" and "last s \<notin> spaceBytes"
  shows "TrimLeft s = s" and "TrimRight s = s"
proof -
  from assms(1) have "s = [] @ hd s # tl s" by simp
  then have "TrimLeft s = TrimLeft ([] @ hd s # tl s)" by simp
  also have "\<dots> = TrimLeft [] @ hd s # tl s" using assms(2) by (rule TrimLeft_stops)
  finally show "TrimLeft s = s" using assms(1) by (simp add: TrimLeft_Nil)
  from assms(1) have "s = butlast s @ last s # []" by simp
  then have "TrimRight s = TrimRight (butlast s @ last s # [])" by simp
  also have "\<dots> = butlast s @ last s # TrimRight []" using assms(3) by (rule TrimRight_stops)
  finally show "TrimRight s = s" using assms(1) by (simp add: TrimRight_Nil)
qed

lemma TrimSpace_surrounded:
  assumes "list_all (\<lambda>w. w \<in> set unicodeSpaces) sp1" and "list_all (\<lambda>w. w \<in> set unicodeSpaces) sp2"
    and "s \<noteq> []" and "hd s \<notin> spaceBytes" and "last s \<notin> spaceBytes"
  shows "TrimSpace (concat sp1 @ s @ concat sp2) = s"
proof -
  have 1: "TrimLeft (concat sp1 @ s @ concat sp2) = TrimLeft (s @ concat sp2)"
    using assms(1) by (rule TrimLeft_spaces)
  from assms(3) obtain c cs where s: "s = c # cs" by (cases s) auto
  with assms(4) have "c \<notin> spaceBytes" by simp
  then have "TrimLeft ([] @ c # (cs @ concat sp2)) = TrimLeft [] @ c # (cs @ concat sp2)"
    by (rule TrimLeft_stops)
  then have 2: "TrimLeft (s @ concat sp2) = s @ concat sp2"
    by (simp add: TrimLeft_Nil s)
  have 3: "TrimRight (s @ concat sp2) = TrimRight s"
    using assms(2) by (rule TrimRight_spaces)
  have 4: "TrimRight s = s" using assms(3-5) by (rule TrimSpace_core)
  show ?thesis by (simp only: TrimSpace_def 1 2 3 4)
qed

lemma sublist_behind_spaces:
  assumes "x \<noteq> []" and "hd x \<notin> S" and "set ws \<subseteq> S" and "sublist x (ws @ s)"
  shows "sublist x s"
  using assms(3,4)
proof (induction ws)
  case Nil
  then show ?case by simp
next
  case (Cons w ws)
  from Cons.prems(1) assms(1,2) have "\<not> prefix x (w # ws @ s)"
    by (cases x) auto
  with Cons.prems(2) have "sublist x (ws @ s)" by (simp add: sublist_Cons_right)
  with Cons show ?case by simp
qed

lemma concat_spaces_bytes:
  "list_all (\<lambda>w. w \<in> set unicodeSpaces) sp \<Longrightarrow> set (concat sp) \<subseteq> spaceBytes"
  by (induction sp) (auto simp: spaceBytes_def)

subsection \<open>A line with the label\<close>

lemma GetPartitionUUID_trimmed_line:
  assumes run: "e p (GetPartitionUUIDCmdTmpl device partNum) \<sigma> = ((stdout, stderr, None), \<sigma>')"
    and lines: "Split stdout [CHR 0x0A] = before @ line # after"
    and before: "list_all (\<lambda>l. \<not> Contains l partitionPresentation) before"
    and line: "TrimSpace line = pre @ partitionPresentation @ rest"
    and first: "\<not> sublist partitionPresentation (pre @ butlast partitionPresentation)"
    and rest: "\<not> sublist partitionPresentation rest"
  shows "GetPartitionUUID u p device partNum \<sigma> = ((ToLower u (TrimSpace rest), None), \<sigma>')"
proof -
  have ne: "partitionPresentation \<noteq> []" by (simp add: partitionPresentation_def)
  have "Contains (TrimSpace line) partitionPresentation"
    by (simp only: line Contains_iff_sublist sublist_appendI)
  then have "Contains line partitionPresentation" by (rule TrimSpace_Contains)
  with before have found: "find (\<lambda>l. Contains l partitionPresentation) (before @ line # after) = Some line"
    by (rule find_first)
  have "Split (pre @ partitionPresentation @ rest) partitionPresentation
        = pre # Split rest partitionPresentation"
    using ne first by (rule Split_first)
  also have "Split rest partitionPresentation = [rest]"
    using ne rest by (simp add: Split_no_sep Contains_iff_sublist)
  finally have "Split (TrimSpace line) partitionPresentation ! 1 = rest"
    by (simp add: line)
  with found have "scanLines u device (before @ line # after) = (ToLower u (TrimSpace rest), None)"
    by (simp add: scanLines_first_match)
  with run lines show ?thesis
    by (simp add: GetPartitionUUID_def)
qed

lemma label_line_trimmed:
  assumes sp1: "list_all (\<lambda>w. w \<in> set unicodeSpaces) sp1"
    and sp2: "list_all (\<lambda>w. w \<in> set unicodeSpaces) sp2"
    and guid: "guid \<noteq> []" "hd guid \<notin> spaceBytes" "last guid \<notin> spaceBytes"
  shows "TrimSpace (pre @ partitionPresentation @ concat sp1 @ guid @ concat sp2)
         = TrimLeft pre @ partitionPresentation @ concat sp1 @ guid"
proof -
  have "TrimRight ((concat sp1 @ guid) @ concat sp2) = TrimRight (concat sp1 @ guid)"
    using sp2 by (rule TrimRight_spaces)
  moreover have "TrimRight ((concat sp1 @ butlast guid) @ last guid # []) = (concat sp1 @ butlast guid) @ last guid # TrimRight []"
    using guid(3) by (rule TrimRight_stops)
  then have "TrimRight (concat sp1 @ guid) = concat sp1 @ guid"
    using guid(1) by (simp add: TrimRight_Nil)
  ultimately have r: "TrimRight (concat sp1 @ guid @ concat sp2) = concat sp1 @ guid" by simp
  have "TrimSpace (pre @ CHR ''P'' # ''artition unique GUID'' @ CHR '':'' # (concat sp1 @ guid @ concat sp2))
        = TrimLeft pre @ CHR ''P'' # ''artition unique GUID'' @ CHR '':'' # TrimRight (concat sp1 @ guid @ concat sp2)"
    using partitionPresentation_ends(2,3) by (rule TrimSpace_around)
  then show ?thesis
    by (simp add: partitionPresentation_ends(1) r)
qed

section \<open>Claims\<close>

subsection \<open>CreatePartitionTable\<close>

text \<open>
  Claim C1. The allow-list \<open>supportedTypes\<close> holds \<open>gpt\<close> only. For every other table
  type \<open>CreatePartitionTable\<close> returns the error that names the device and, as \<open>%#v\<close>
  renders it, the type, and it leaves the executor's state as it was: the executor is
  not called, and a spy has recorded nothing new. For \<open>gpt\<close> the state afterwards is
  the state after one \<open>RunCmd\<close> of the formatted table-creation command, and a spy has
  recorded exactly that command.
\<close>

theorem CreatePartitionTable_checks_type_first:
  "(partTableType \<noteq> ''gpt'' \<longrightarrow>
      CreatePartitionTable u p device partTableType \<sigma> =
        (Some (Errorf (''unable to create partition table for device '' @ device
                       @ '' unsupported partition table type: '' @ Quote u partTableType)), \<sigma>)
      \<and> snd (CreatePartitionTable u (NewPartition (spy r)) device partTableType calls) = calls)
   \<and> snd (CreatePartitionTable u p device ''gpt'' \<sigma>)
       = snd (e p (''parted -s '' @ device @ '' mklabel gpt'') \<sigma>)
   \<and> snd (CreatePartitionTable u (NewPartition (spy r)) device ''gpt'' calls)
       = calls @ [''parted -s '' @ device @ '' mklabel gpt'']
   \<and> supportedTypes = [''gpt'']"
proof (intro conjI impI)
  assume "partTableType \<noteq> ''gpt''"
  then show "CreatePartitionTable u p device partTableType \<sigma> =
        (Some (Errorf (''unable to create partition table for device '' @ device
                       @ '' unsupported partition table type: '' @ Quote u partTableType)), \<sigma>)"
    and "snd (CreatePartitionTable u (NewPartition (spy r)) device partTableType calls) = calls"
    by (simp_all add: CreatePartitionTable_def ContainsString_supportedTypes)
next
  show "snd (CreatePartitionTable u p device ''gpt'' \<sigma>)
       = snd (e p (''parted -s '' @ device @ '' mklabel gpt'') \<sigma>)"
    by (simp add: CreatePartitionTable_def ContainsString_supportedTypes tmpl_defs split: prod.split)
  then show "snd (CreatePartitionTable u (NewPartition (spy r)) device ''gpt'' calls)
       = calls @ [''parted -s '' @ device @ '' mklabel gpt'']"
    by (simp add: CreatePartitionTable_def ContainsString_supportedTypes tmpl_defs e_spy split: prod.split)
next
  show "supportedTypes = [''gpt'']" by (simp add: supportedTypes_def PartitionGPT_def)
qed

theorem CreatePartitionTable_checks_type_first_witness:
  "''msdos'' \<noteq> ''gpt'' \<and>
   CreatePartitionTable asciiTables (NewPartition (spy ([], [], None))) ''/dev/sda'' ''msdos'' []
     = (Some (Errorf (''unable to create partition table for device /dev/sda unsupported partition table type: ''
                      @ [CHR 0x22] @ ''msdos'' @ [CHR 0x22])), [])"
  using CreatePartitionTable_checks_type_first
    [where partTableType = "''msdos''" and u = asciiTables and device = "''/dev/sda''"
       and p = "NewPartition (spy ([], [], None))" and \<sigma> = "[]"]
  by (simp add: Quote_def isPrintASCII_def escapeByte_def)

subsection \<open>Failure of the executor\<close>

text \<open>
  Claim C6. Whenever the \<open>RunCmd\<close> call of an operation returns an error, the operation
  returns an error; \<open>IsPartitionExists\<close> returns \<open>false\<close> with it.
\<close>

theorem executor_failure_is_returned:
  "(RunCmd_err p (PartprobeDeviceCmdTmpl device) \<sigma> \<noteq> None \<longrightarrow>
      fst (fst (IsPartitionExists u p device partNum \<sigma>)) = False
      \<and> snd (fst (IsPartitionExists u p device partNum \<sigma>)) \<noteq> None)
   \<and> (RunCmd_err p (CreatePartitionTableCmdTmpl device partTableType) \<sigma> \<noteq> None \<longrightarrow>
      fst (CreatePartitionTable u p device partTableType \<sigma>) \<noteq> None)
   \<and> (RunCmd_err p (PartprobeDeviceCmdTmpl device) \<sigma> \<noteq> None \<longrightarrow>
      snd (fst (GetPartitionTableType p device \<sigma>)) \<noteq> None)
   \<and> (RunCmd_err p (CreatePartitionCmdTmpl device partName) \<sigma> \<noteq> None \<longrightarrow>
      fst (CreatePartition p device partName \<sigma>) \<noteq> None)
   \<and> (RunCmd_err p (DeletePartitionCmdTmpl device partNum) \<sigma> \<noteq> None \<longrightarrow>
      fst (DeletePartition u p device partNum \<sigma>) \<noteq> None)
   \<and> (RunCmd_err p (SetPartitionUUIDCmdTmpl device partNum partUUID) \<sigma> \<noteq> None \<longrightarrow>
      fst (SetPartitionUUID p device partNum partUUID \<sigma>) \<noteq> None)
   \<and> (RunCmd_err p (GetPartitionUUIDCmdTmpl device partNum) \<sigma> \<noteq> None \<longrightarrow>
      snd (fst (GetPartitionUUID u p device partNum \<sigma>)) \<noteq> None)
   \<and> (RunCmd_err p (PartprobeCmdTmpl device) \<sigma> \<noteq> None \<longrightarrow>
      fst (SyncPartitionTable p device \<sigma>) \<noteq> None)"
proof (intro conjI impI)
  assume "RunCmd_err p (PartprobeDeviceCmdTmpl device) \<sigma> \<noteq> None"
  then show "fst (fst (IsPartitionExists u p device partNum \<sigma>)) = False"
    and "snd (fst (IsPartitionExists u p device partNum \<sigma>)) \<noteq> None"
    and "snd (fst (GetPartitionTableType p device \<sigma>)) \<noteq> None"
    by (auto simp: RunCmd_err_def IsPartitionExists_def GetPartitionTableType_def split: prod.splits)
next
  assume "RunCmd_err p (CreatePartitionTableCmdTmpl device partTableType) \<sigma> \<noteq> None"
  then show "fst (CreatePartitionTable u p device partTableType \<sigma>) \<noteq> None"
    by (auto simp: RunCmd_err_def CreatePartitionTable_def split: prod.splits)
next
  assume "RunCmd_err p (CreatePartitionCmdTmpl device partName) \<sigma> \<noteq> None"
  then show "fst (CreatePartition p device partName \<sigma>) \<noteq> None"
    by (auto simp: RunCmd_err_def CreatePartition_def split: prod.splits)
next
  assume "RunCmd_err p (DeletePartitionCmdTmpl device partNum) \<sigma> \<noteq> None"
  then show "fst (DeletePartition u p device partNum \<sigma>) \<noteq> None"
    by (auto simp: RunCmd_err_def DeletePartition_def split: prod.splits option.splits)
next
  assume "RunCmd_err p (SetPartitionUUIDCmdTmpl device partNum partUUID) \<sigma> \<noteq> None"
  then show "fst (SetPartitionUUID p device partNum partUUID \<sigma>) \<noteq> None"
    by (auto simp: RunCmd_err_def SetPartitionUUID_def split: prod.splits)
next
  assume "RunCmd_err p (GetPartitionUUIDCmdTmpl device partNum) \<sigma> \<noteq> None"
  then show "snd (fst (GetPartitionUUID u p device partNum \<sigma>)) \<noteq> None"
    by (auto simp: RunCmd_err_def GetPartitionUUID_def split: prod.splits)
next
  assume "RunCmd_err p (PartprobeCmdTmpl device) \<sigma> \<noteq> None"
  then show "fst (SyncPartitionTable p device \<sigma>) \<noteq> None"
    by (auto simp: RunCmd_err_def SyncPartitionTable_def split: prod.splits)
qed

theorem executor_failure_is_returned_witness:
  "RunCmd_err (NewPartition (spy ([], ''boom'', Some (Errorf ''exit status 1''))))
      (PartprobeDeviceCmdTmpl ''/dev/sda'') [] \<noteq> None
   \<and> fst (fst (IsPartitionExists asciiTables
                 (NewPartition (spy ([], ''boom'', Some (Errorf ''exit status 1'')))) ''/dev/sda'' ''1'' []))
       = False
   \<and> snd (fst (IsPartitionExists asciiTables
                 (NewPartition (spy ([], ''boom'', Some (Errorf ''exit status 1'')))) ''/dev/sda'' ''1'' []))
       \<noteq> None
   \<and> fst (CreatePartitionTable asciiTables
            (NewPartition (spy ([], ''boom'', Some (Errorf ''exit status 1'')))) ''/dev/sda'' ''gpt'' [])
       \<noteq> None
   \<and> snd (fst (GetPartitionTableType
                 (NewPartition (spy ([], ''boom'', Some (Errorf ''exit status 1'')))) ''/dev/sda'' []))
       \<noteq> None
   \<and> fst (CreatePartition
            (NewPartition (spy ([], ''boom'', Some (Errorf ''exit status 1'')))) ''/dev/sda'' ''p1'' [])
       \<noteq> None
   \<and> fst (DeletePartition asciiTables
            (NewPartition (spy ([], ''boom'', Some (Errorf ''exit status 1'')))) ''/dev/sda'' ''1'' [])
       \<noteq> None
   \<and> fst (SetPartitionUUID
            (NewPartition (spy ([], ''boom'', Some (Errorf ''exit status 1'')))) ''/dev/sda'' ''1'' ''5209cfd8'' [])
       \<noteq> None
   \<and> snd (fst (GetPartitionUUID asciiTables
                 (NewPartition (spy ([], ''boom'', Some (Errorf ''exit status 1'')))) ''/dev/sda'' ''1'' []))
       \<noteq> None
   \<and> fst (SyncPartitionTable
            (NewPartition (spy ([], ''boom'', Some (Errorf ''exit status 1'')))) ''/dev/sda'' [])
       \<noteq> None"
proof -
  have fails: "RunCmd_err (NewPartition (spy ([], ''boom'', Some (Errorf ''exit status 1'')))) c [] \<noteq> None"
    for c
    by (simp add: RunCmd_err_def e_spy)
  from fails executor_failure_is_returned
    [where p = "NewPartition (spy ([], ''boom'', Some (Errorf ''exit status 1'')))"
       and device = "''/dev/sda''" and \<sigma> = "[]" and u = asciiTables and partNum = "''1''"
       and partTableType = "''gpt''" and partName = "''p1''" and partUUID = "''5209cfd8''"]
  show ?thesis by blast
qed

subsection \<open>DeletePartition, CreatePartition and SetPartitionUUID\<close>

text \<open>
  Claim C8, as stated: the message of \<open>DeletePartition\<close> contains the partition number.
  The format renders the partition number with \<open>%#v\<close>, which escapes a double quote:
  for the partition number \<open>a\<close>, double quote, \<open>b\<close> the message holds \<open>a\<close>, backslash,
  double quote, \<open>b\<close> between double quotes, and the partition number as given is no
  part of the message.
\<close>

theorem DeletePartition_partNum_escaped:
  "fst (DeletePartition asciiTables
          (NewPartition (spy ([], ''Error: no such partition'', Some (Errorf ''exit status 1''))))
          ''/dev/sda'' (''a'' @ [CHR 0x22] @ ''b'') [])
     = Some (Errorf (''unable to delete partition '' @ [CHR 0x22] @ ''a'' @ [CHR 0x5C, CHR 0x22] @ ''b''
                     @ [CHR 0x22] @ '' from device /dev/sda: Error: no such partition, error: exit status 1''))
   \<and> \<not> sublist (''a'' @ [CHR 0x22] @ ''b'')
         (''unable to delete partition '' @ [CHR 0x22] @ ''a'' @ [CHR 0x5C, CHR 0x22] @ ''b''
          @ [CHR 0x22] @ '' from device /dev/sda: Error: no such partition, error: exit status 1'')"
proof (rule conjI)
  show "fst (DeletePartition asciiTables
          (NewPartition (spy ([], ''Error: no such partition'', Some (Errorf ''exit status 1''))))
          ''/dev/sda'' (''a'' @ [CHR 0x22] @ ''b'') [])
     = Some (Errorf (''unable to delete partition '' @ [CHR 0x22] @ ''a'' @ [CHR 0x5C, CHR 0x22] @ ''b''
                     @ [CHR 0x22] @ '' from device /dev/sda: Error: no such partition, error: exit status 1''))"
    by (simp add: DeletePartition_def e_spy Quote_def isPrintASCII_def escapeByte_def)
  show "\<not> sublist (''a'' @ [CHR 0x22] @ ''b'')
         (''unable to delete partition '' @ [CHR 0x22] @ ''a'' @ [CHR 0x5C, CHR 0x22] @ ''b''
          @ [CHR 0x22] @ '' from device /dev/sda: Error: no such partition, error: exit status 1'')"
    by (simp add: sublist_Cons_right)
qed

text \<open>
  Claim C8, amended. When the executor fails, \<open>DeletePartition\<close> returns a new error whose
  text holds the device path, the partition number as \<open>%#v\<close> renders it (a double-quoted
  Go literal; the partition number stands unchanged between the quotes when it is made of
  printable ASCII bytes other than the double quote and the backslash), the standard-error
  text of the tool and the text of the executor's error. \<open>CreatePartition\<close> and
  \<open>SetPartitionUUID\<close> return the executor's error itself.
\<close>

theorem DeletePartition_wraps_others_return_raw:
  "(e p (DeletePartitionCmdTmpl device partNum) \<sigma> = ((stdout, stderr, Some er), \<sigma>') \<longrightarrow>
      (let msg = ''unable to delete partition '' @ Quote u partNum @ '' from device '' @ device
                 @ '': '' @ stderr @ '', error: '' @ Error er
       in DeletePartition u p device partNum \<sigma> = (Some (Errorf msg), \<sigma>')
          \<and> sublist device msg \<and> sublist (Quote u partNum) msg
          \<and> sublist stderr msg \<and> sublist (Error er) msg))
   \<and> (list_all plainByte partNum \<longrightarrow> Quote u partNum = [CHR 0x22] @ partNum @ [CHR 0x22])
   \<and> (e p (CreatePartitionCmdTmpl device partName) \<sigma> = ((stdout, stderr, Some er), \<sigma>') \<longrightarrow>
        CreatePartition p device partName \<sigma> = (Some er, \<sigma>'))
   \<and> (e p (SetPartitionUUIDCmdTmpl device partNum partUUID) \<sigma> = ((stdout, stderr, Some er), \<sigma>') \<longrightarrow>
        SetPartitionUUID p device partNum partUUID \<sigma> = (Some er, \<sigma>'))"
proof (intro conjI impI)
  assume run: "e p (DeletePartitionCmdTmpl device partNum) \<sigma> = ((stdout, stderr, Some er), \<sigma>')"
  define a where "a = ''unable to delete partition ''"
  define b where "b = '' from device ''"
  define c where "c = '': ''"
  define d where "d = '', error: ''"
  define msg where "msg = a @ Quote u partNum @ b @ device @ c @ stderr @ d @ Error er"
  from run have "DeletePartition u p device partNum \<sigma> = (Some (Errorf msg), \<sigma>')"
    by (simp add: DeletePartition_def msg_def a_def b_def c_def d_def)
  moreover have "sublist device ((a @ Quote u partNum @ b) @ device @ (c @ stderr @ d @ Error er))"
    by (rule sublist_appendI)
  then have "sublist device msg" by (simp add: msg_def)
  moreover have "sublist (Quote u partNum) (a @ Quote u partNum @ (b @ device @ c @ stderr @ d @ Error er))"
    by (rule sublist_appendI)
  then have "sublist (Quote u partNum) msg" by (simp add: msg_def)
  moreover have "sublist stderr ((a @ Quote u partNum @ b @ device @ c) @ stderr @ (d @ Error er))"
    by (rule sublist_appendI)
  then have "sublist stderr msg" by (simp add: msg_def)
  moreover have "sublist (Error er) ((a @ Quote u partNum @ b @ device @ c @ stderr @ d) @ Error er)"
    by (rule sublist_append_leftI)
  then have "sublist (Error er) msg" by (simp add: msg_def)
  ultimately show "let msg = ''unable to delete partition '' @ Quote u partNum @ '' from device '' @ device
                 @ '': '' @ stderr @ '', error: '' @ Error er
       in DeletePartition u p device partNum \<sigma> = (Some (Errorf msg), \<sigma>')
          \<and> sublist device msg \<and> sublist (Quote u partNum) msg
          \<and> sublist stderr msg \<and> sublist (Error er) msg"
    unfolding Let_def msg_def a_def b_def c_def d_def by blast
next
  assume "list_all plainByte partNum"
  then show "Quote u partNum = [CHR 0x22] @ partNum @ [CHR 0x22]" by (rule Quote_plain)
next
  assume "e p (CreatePartitionCmdTmpl device partName) \<sigma> = ((stdout, stderr, Some er), \<sigma>')"
  then show "CreatePartition p device partName \<sigma> = (Some er, \<sigma>')"
    by (simp add: CreatePartition_def)
next
  assume "e p (SetPartitionUUIDCmdTmpl device partNum partUUID) \<sigma> = ((stdout, stderr, Some er), \<sigma>')"
  then show "SetPartitionUUID p device partNum partUUID \<sigma> = (Some er, \<sigma>')"
    by (simp add: SetPartitionUUID_def)
qed

theorem DeletePartition_wraps_others_return_raw_witness:
  "DeletePartition asciiTables (NewPartition (spy ([], ''Error: no such partition'', Some (Errorf ''exit status 1''))))
      ''/dev/sda'' ''1'' []
     = (Some (Errorf (''unable to delete partition '' @ [CHR 0x22] @ ''1'' @ [CHR 0x22]
                      @ '' from device /dev/sda: Error: no such partition, error: exit status 1'')),
        [''parted -s /dev/sda rm 1''])
   \<and> CreatePartition (NewPartition (spy ([], ''Error: no such partition'', Some (Errorf ''exit status 1''))))
        ''/dev/sda'' ''p1'' []
     = (Some (Errorf ''exit status 1''), [''parted -s /dev/sda mkpart --align optimal p1 0% 100%''])
   \<and> SetPartitionUUID (NewPartition (spy ([], ''Error: no such partition'', Some (Errorf ''exit status 1''))))
        ''/dev/sda'' ''1'' ''5209cfd8'' []
     = (Some (Errorf ''exit status 1''), [''sgdisk /dev/sda --partition-guid=1:5209cfd8''])"
  using DeletePartition_wraps_others_return_raw
    [where p = "NewPartition (spy ([], ''Error: no such partition'', Some (Errorf ''exit status 1'')))"
       and device = "''/dev/sda''" and \<sigma> = "[]" and u = asciiTables and partNum = "''1''"
       and partName = "''p1''" and partUUID = "''5209cfd8''"
       and stdout = "[]" and stderr = "''Error: no such partition''" and er = "Errorf ''exit status 1''"
       and \<sigma>' = "[''parted -s /dev/sda rm 1'']",
     THEN conjunct1]
    DeletePartition_wraps_others_return_raw
    [where p = "NewPartition (spy ([], ''Error: no such partition'', Some (Errorf ''exit status 1'')))"
       and device = "''/dev/sda''" and \<sigma> = "[]" and u = asciiTables and partNum = "''1''"
       and partName = "''p1''" and partUUID = "''5209cfd8''"
       and stdout = "[]" and stderr = "''Error: no such partition''" and er = "Errorf ''exit status 1''"
       and \<sigma>' = "[''parted -s /dev/sda mkpart --align optimal p1 0% 100%'']",
     THEN conjunct2, THEN conjunct2, THEN conjunct1]
    DeletePartition_wraps_others_return_raw
    [where p = "NewPartition (spy ([], ''Error: no such partition'', Some (Errorf ''exit status 1'')))"
       and device = "''/dev/sda''" and \<sigma> = "[]" and u = asciiTables and partNum = "''1''"
       and partName = "''p1''" and partUUID = "''5209cfd8''"
       and stdout = "[]" and stderr = "''Error: no such partition''" and er = "Errorf ''exit status 1''"
       and \<sigma>' = "[''sgdisk /dev/sda --partition-guid=1:5209cfd8'']",
     THEN conjunct2, THEN conjunct2, THEN conjunct2]
    DeletePartition_wraps_others_return_raw
    [where partNum = "''1''" and u = asciiTables, THEN conjunct2, THEN conjunct1]
  by (simp add: e_spy tmpl_defs plainByte_def isPrintASCII_def Let_def)

subsection \<open>SyncPartitionTable\<close>

text \<open>
  Claim C7. For the empty device \<open>SyncPartitionTable\<close> formats the command
  \<open>partprobe\<close> followed by one space, passes it to the executor, and returns nil when
  the executor does.
\<close>

theorem SyncPartitionTable_empty_device:
  "PartprobeCmdTmpl [] = ''partprobe ''
   \<and> (RunCmd_err p ''partprobe '' \<sigma> = None \<longrightarrow>
        SyncPartitionTable p [] \<sigma> = (None, snd (e p ''partprobe '' \<sigma>)))
   \<and> SyncPartitionTable (NewPartition (spy (stdout, stderr, None))) [] calls
        = (None, calls @ [''partprobe ''])"
  by (auto simp: SyncPartitionTable_def RunCmd_err_def tmpl_defs e_spy split: prod.splits)

theorem SyncPartitionTable_empty_device_witness:
  "RunCmd_err (NewPartition (spy (''ok'', [], None))) ''partprobe '' [] = None
   \<and> SyncPartitionTable (NewPartition (spy (''ok'', [], None))) [] [] = (None, [''partprobe ''])"
  using SyncPartitionTable_empty_device [where p = "NewPartition (spy (''ok'', [], None))" and \<sigma> = "[]"]
  by (simp add: RunCmd_err_def e_spy)

subsection \<open>IsPartitionExists\<close>

text \<open>
  Claim C9. Two calls of \<open>IsPartitionExists\<close> that differ in the partition number only
  return the same boolean, both return an error or both return none, and they leave the
  executor in the same state.
\<close>

theorem IsPartitionExists_ignores_partNum:
  "fst (fst (IsPartitionExists u p device partNum1 \<sigma>)) = fst (fst (IsPartitionExists u p device partNum2 \<sigma>))
   \<and> (snd (fst (IsPartitionExists u p device partNum1 \<sigma>)) = None)
       = (snd (fst (IsPartitionExists u p device partNum2 \<sigma>)) = None)
   \<and> snd (IsPartitionExists u p device partNum1 \<sigma>) = snd (IsPartitionExists u p device partNum2 \<sigma>)"
  by (simp add: IsPartitionExists_def Let_def split: prod.split)

text \<open>
  Claim C10. When the executor succeeds and its output does not contain \<open>partitions\<close>
  at all, the split of the trimmed output has the single element that is the trimmed
  output, and \<open>IsPartitionExists\<close> returns \<open>false\<close> with a nil error, not a parse error.
\<close>

theorem IsPartitionExists_without_token:
  assumes "e p (PartprobeDeviceCmdTmpl device) \<sigma> = ((stdout, stderr, None), \<sigma>')"
    and "\<not> Contains stdout ''partitions''"
  shows "IsPartitionExists u p device partNum \<sigma> = ((False, None), \<sigma>')
         \<and> Split (TrimSpace stdout) ''partitions'' = [TrimSpace stdout]"
proof -
  from assms(2) have "\<not> Contains (TrimSpace stdout) ''partitions''"
    using TrimSpace_Contains by blast
  then have "Split (TrimSpace stdout) ''partitions'' = [TrimSpace stdout]"
    by (simp add: Split_no_sep)
  with assms(1) show ?thesis
    by (simp add: IsPartitionExists_def)
qed

theorem IsPartitionExists_without_token_witness:
  "\<not> Contains [] ''partitions''
   \<and> IsPartitionExists asciiTables (NewPartition (spy ([], [], None))) ''/dev/sdy'' ''1'' []
       = ((False, None), [''partprobe -d -s /dev/sdy''])
   \<and> \<not> Contains ''Error: Could not stat device /dev/sdy - No such file or directory.'' ''partitions''
   \<and> IsPartitionExists asciiTables
        (NewPartition (spy (''Error: Could not stat device /dev/sdy - No such file or directory.'', [], None)))
        ''/dev/sdy'' ''1'' []
       = ((False, None), [''partprobe -d -s /dev/sdy''])"
  using IsPartitionExists_without_token
    [where p = "NewPartition (spy ([], [], None))" and device = "''/dev/sdy''" and \<sigma> = "[]"
       and stdout = "[]" and stderr = "[]" and \<sigma>' = "[''partprobe -d -s /dev/sdy'']"
       and u = asciiTables and partNum = "''1''"]
    IsPartitionExists_without_token
    [where p = "NewPartition (spy (''Error: Could not stat device /dev/sdy - No such file or directory.'', [], None))"
       and device = "''/dev/sdy''" and \<sigma> = "[]"
       and stdout = "''Error: Could not stat device /dev/sdy - No such file or directory.''"
       and stderr = "[]" and \<sigma>' = "[''partprobe -d -s /dev/sdy'']"
       and u = asciiTables and partNum = "''1''"]
  by (simp add: e_spy tmpl_defs Contains_def)

text \<open>
  Claim C3, as stated: with a succeeding executor the result is true exactly when, after
  trimming, a non-empty remainder follows the token \<open>partitions\<close>. It fails on an output
  in which the token is followed at once by the token again: a non-empty remainder follows
  either occurrence, and the result is false, because the second element of the split is
  the empty text between the two occurrences.
\<close>

theorem IsPartitionExists_doubled_token:
  "fst (IsPartitionExists asciiTables
          (NewPartition (spy (''/dev/sdy: gpt partitionspartitions 1'', [], None))) ''/dev/sdy'' ''1'' [])
     = (False, None)
   \<and> TrimSpace ''/dev/sdy: gpt partitionspartitions 1''
       = ''/dev/sdy: gpt '' @ ''partitions'' @ ''partitions 1''
   \<and> TrimSpace ''/dev/sdy: gpt partitionspartitions 1''
       = ''/dev/sdy: gpt partitions'' @ ''partitions'' @ '' 1''"
  by (simp add: IsPartitionExists_def e_spy tmpl_defs trim_eval Split.simps)

text \<open>
  Claim C3, amended. With a succeeding executor \<open>IsPartitionExists\<close> returns a nil error,
  and true exactly when, in the trimmed output, the first occurrence of the token
  \<open>partitions\<close> is followed by a non-empty remainder that does not itself begin with the
  token. It returns true for the output \<open>/dev/sdy: gpt partitions 1 2\<close> and false for the
  outputs that end with the token, with or without a space behind it.
\<close>

theorem IsPartitionExists_result:
  "(e p (PartprobeDeviceCmdTmpl device) \<sigma> = ((stdout, stderr, None), \<sigma>') \<longrightarrow>
      IsPartitionExists u p device partNum \<sigma> =
        (((\<exists>pre rest. TrimSpace stdout = pre @ ''partitions'' @ rest
                       \<and> \<not> sublist ''partitions'' (pre @ ''partition'')
                       \<and> rest \<noteq> [] \<and> \<not> prefix ''partitions'' rest), None), \<sigma>'))
   \<and> IsPartitionExists u (NewPartition (spy (''/dev/sdy: gpt partitions 1 2'', stderr, None)))
        ''/dev/sdy'' partNum calls = ((True, None), calls @ [''partprobe -d -s /dev/sdy''])
   \<and> IsPartitionExists u (NewPartition (spy (''/dev/sdy: gpt partitions '', stderr, None)))
        ''/dev/sdy'' partNum calls = ((False, None), calls @ [''partprobe -d -s /dev/sdy''])
   \<and> IsPartitionExists u (NewPartition (spy (''/dev/sdy: gpt partitions'', stderr, None)))
        ''/dev/sdy'' partNum calls = ((False, None), calls @ [''partprobe -d -s /dev/sdy''])"
proof (intro conjI impI)
  assume run: "e p (PartprobeDeviceCmdTmpl device) \<sigma> = ((stdout, stderr, None), \<sigma>')"
  have "(1 < length (Split (TrimSpace stdout) ''partitions'')
          \<and> Split (TrimSpace stdout) ''partitions'' ! 1 \<noteq> []) \<longleftrightarrow>
        (\<exists>pre rest. TrimSpace stdout = pre @ ''partitions'' @ rest
                       \<and> \<not> sublist ''partitions'' (pre @ ''partition'')
                       \<and> rest \<noteq> [] \<and> \<not> prefix ''partitions'' rest)"
    using Split_second_nonempty_iff [of "''partitions''" "TrimSpace stdout"] by simp
  with run show "IsPartitionExists u p device partNum \<sigma> =
        (((\<exists>pre rest. TrimSpace stdout = pre @ ''partitions'' @ rest
                       \<and> \<not> sublist ''partitions'' (pre @ ''partition'')
                       \<and> rest \<noteq> [] \<and> \<not> prefix ''partitions'' rest), None), \<sigma>')"
    by (simp add: IsPartitionExists_def Let_def)
next
  show "IsPartitionExists u (NewPartition (spy (''/dev/sdy: gpt partitions 1 2'', stderr, None)))
        ''/dev/sdy'' partNum calls = ((True, None), calls @ [''partprobe -d -s /dev/sdy''])"
    by (simp add: IsPartitionExists_def e_spy tmpl_defs trim_eval Split.simps)
next
  show "IsPartitionExists u (NewPartition (spy (''/dev/sdy: gpt partitions '', stderr, None)))
        ''/dev/sdy'' partNum calls = ((False, None), calls @ [''partprobe -d -s /dev/sdy''])"
    by (simp add: IsPartitionExists_def e_spy tmpl_defs trim_eval Split.simps)
next
  show "IsPartitionExists u (NewPartition (spy (''/dev/sdy: gpt partitions'', stderr, None)))
        ''/dev/sdy'' partNum calls = ((False, None), calls @ [''partprobe -d -s /dev/sdy''])"
    by (simp add: IsPartitionExists_def e_spy tmpl_defs trim_eval Split.simps)
qed

theorem IsPartitionExists_result_witness:
  "e (NewPartition (spy (''/dev/sdy: gpt partitions 1 2'', [], None))) (PartprobeDeviceCmdTmpl ''/dev/sdy'') []
     = ((''/dev/sdy: gpt partitions 1 2'', [], None), [''partprobe -d -s /dev/sdy''])
   \<and> IsPartitionExists asciiTables (NewPartition (spy (''/dev/sdy: gpt partitions 1 2'', [], None)))
        ''/dev/sdy'' ''2'' []
     = (((\<exists>pre rest. ''/dev/sdy: gpt partitions 1 2'' = pre @ ''partitions'' @ rest
                       \<and> \<not> sublist ''partitions'' (pre @ ''partition'')
                       \<and> rest \<noteq> [] \<and> \<not> prefix ''partitions'' rest), None), [''partprobe -d -s /dev/sdy''])"
proof -
  have t: "TrimSpace ''/dev/sdy: gpt partitions 1 2'' = ''/dev/sdy: gpt partitions 1 2''"
    by (simp add: trim_eval)
  have r: "e (NewPartition (spy (''/dev/sdy: gpt partitions 1 2'', [], None))) (PartprobeDeviceCmdTmpl ''/dev/sdy'') []
     = ((''/dev/sdy: gpt partitions 1 2'', [], None), [''partprobe -d -s /dev/sdy''])"
    by (simp add: e_spy tmpl_defs)
  note g = IsPartitionExists_result
    [where p = "NewPartition (spy (''/dev/sdy: gpt partitions 1 2'', [], None))"
       and device = "''/dev/sdy''" and \<sigma> = "[]" and stdout = "''/dev/sdy: gpt partitions 1 2''"
       and stderr = "[]" and \<sigma>' = "[''partprobe -d -s /dev/sdy'']" and u = asciiTables
       and partNum = "''2''", THEN conjunct1, THEN mp, OF r]
  from r g [unfolded t] show ?thesis by (rule conjI)
qed

subsection \<open>GetPartitionTableType\<close>

text \<open>
  Claim C4, as stated: the result is the token at index 1 of the output split on white
  space, and a parse error when there are fewer than two such tokens. The source splits
  at the single space byte. On an output whose first two tokens are separated by a tab
  the token at index 1 is \<open>msdos\<close>, and \<open>GetPartitionTableType\<close> returns \<open>partitions\<close>.
  An output that is a space followed by \<open>msdos\<close> has one token, and
  \<open>GetPartitionTableType\<close> returns \<open>msdos\<close> with a nil error, not a parse error.
\<close>

theorem GetPartitionTableType_not_whitespace_split:
  "fst (GetPartitionTableType
          (NewPartition (spy (''/dev/sda:'' @ [CHR 0x09] @ ''msdos partitions 1'', [], None))) ''/dev/sda'' [])
     = (''partitions'', None)
   \<and> whitespaceTokens (''/dev/sda:'' @ [CHR 0x09] @ ''msdos partitions 1'')
       = [''/dev/sda:'', ''msdos'', ''partitions'', ''1'']
   \<and> whitespaceTokens (''/dev/sda:'' @ [CHR 0x09] @ ''msdos partitions 1'') ! 1 = ''msdos''
   \<and> fst (GetPartitionTableType (NewPartition (spy ('' msdos'', [], None))) ''/dev/sda'' [])
     = (''msdos'', None)
   \<and> whitespaceTokens '' msdos'' = [''msdos'']
   \<and> length (whitespaceTokens '' msdos'') < 2"
  by (simp add: GetPartitionTableType_def e_spy tmpl_defs Split.simps whitespaceTokens_def isSpaceByte_def)

text \<open>
  Claim C4, amended. With a succeeding executor \<open>GetPartitionTableType\<close> returns the
  element at index 1 of the output split at every single space byte, which is the text
  between the first space and the next space or the end of the output (\<open>msdos\<close> for
  \<open>/dev/sda: msdos partitions 1\<close>), when that text is not empty; it returns the parse
  error that names the output and the device when the output has no space byte. Nothing
  is said of an output in which the first space is followed by a space or by nothing.
\<close>

theorem GetPartitionTableType_result:
  "(e p (PartprobeDeviceCmdTmpl device) \<sigma> = ((stdout, stderr, None), \<sigma>')
      \<and> CHR '' '' \<notin> set stdout \<longrightarrow>
      GetPartitionTableType p device \<sigma>
        = (([], Some (Errorf (''unable to parse output '' @ [CHR 0x27] @ stdout @ [CHR 0x27]
                              @ '' for device '' @ device))), \<sigma>'))
   \<and> (e p (PartprobeDeviceCmdTmpl device) \<sigma> = ((stdout, stderr, None), \<sigma>')
      \<and> stdout = a @ '' '' @ b \<and> CHR '' '' \<notin> set a \<and> b \<noteq> [] \<and> \<not> prefix '' '' b \<longrightarrow>
      GetPartitionTableType p device \<sigma> = ((Split stdout '' '' ! 1, None), \<sigma>')
      \<and> Split stdout '' '' ! 1 = takeWhile (\<lambda>c. c \<noteq> CHR '' '') b
      \<and> Split stdout '' '' ! 1 \<noteq> [])
   \<and> GetPartitionTableType (NewPartition (spy (''/dev/sda: msdos partitions 1'', stderr, None)))
        ''/dev/sda'' calls = ((''msdos'', None), calls @ [''partprobe -d -s /dev/sda''])"
proof (intro conjI impI)
  assume "e p (PartprobeDeviceCmdTmpl device) \<sigma> = ((stdout, stderr, None), \<sigma>')
      \<and> CHR '' '' \<notin> set stdout"
  then have run: "e p (PartprobeDeviceCmdTmpl device) \<sigma> = ((stdout, stderr, None), \<sigma>')"
    and "length (Split stdout '' '') < 2"
    by (simp_all add: Split_char_length)
  then show "GetPartitionTableType p device \<sigma>
        = (([], Some (Errorf (''unable to parse output '' @ [CHR 0x27] @ stdout @ [CHR 0x27]
                              @ '' for device '' @ device))), \<sigma>')"
    by (simp add: GetPartitionTableType_def)
next
  assume h: "e p (PartprobeDeviceCmdTmpl device) \<sigma> = ((stdout, stderr, None), \<sigma>')
      \<and> stdout = a @ '' '' @ b \<and> CHR '' '' \<notin> set a \<and> b \<noteq> [] \<and> \<not> prefix '' '' b"
  then have run: "e p (PartprobeDeviceCmdTmpl device) \<sigma> = ((stdout, stderr, None), \<sigma>')"
    and "CHR '' '' \<in> set stdout" by simp_all
  then have "\<not> length (Split stdout '' '') < 2" by (simp only: Split_char_length) simp
  with run show "GetPartitionTableType p device \<sigma> = ((Split stdout '' '' ! 1, None), \<sigma>')"
    by (simp add: GetPartitionTableType_def)
  from h show second: "Split stdout '' '' ! 1 = takeWhile (\<lambda>c. c \<noteq> CHR '' '') b"
    using Split_char_second [of "CHR '' ''" a b] by simp
  from h have "takeWhile (\<lambda>c. c \<noteq> CHR '' '') b \<noteq> []"
    by (cases b) auto
  with second show "Split stdout '' '' ! 1 \<noteq> []" by simp
next
  show "GetPartitionTableType (NewPartition (spy (''/dev/sda: msdos partitions 1'', stderr, None)))
        ''/dev/sda'' calls = ((''msdos'', None), calls @ [''partprobe -d -s /dev/sda''])"
    by (simp add: GetPartitionTableType_def e_spy tmpl_defs Split.simps)
qed

theorem GetPartitionTableType_result_witness:
  "GetPartitionTableType (NewPartition (spy (''unrecognised'', [], None))) ''/dev/sda'' []
     = (([], Some (Errorf (''unable to parse output '' @ [CHR 0x27] @ ''unrecognised'' @ [CHR 0x27]
                           @ '' for device /dev/sda''))), [''partprobe -d -s /dev/sda''])
   \<and> GetPartitionTableType (NewPartition (spy (''/dev/sda: gpt partitions 1'', [], None))) ''/dev/sda'' []
     = ((''gpt'', None), [''partprobe -d -s /dev/sda''])"
  using GetPartitionTableType_result
    [where p = "NewPartition (spy (''unrecognised'', [], None))" and device = "''/dev/sda''"
       and \<sigma> = "[]" and stdout = "''unrecognised''" and stderr = "[]"
       and \<sigma>' = "[''partprobe -d -s /dev/sda'']", THEN conjunct1]
    GetPartitionTableType_result
    [where p = "NewPartition (spy (''/dev/sda: gpt partitions 1'', [], None))" and device = "''/dev/sda''"
       and \<sigma> = "[]" and stdout = "''/dev/sda: gpt partitions 1''" and stderr = "[]"
       and \<sigma>' = "[''partprobe -d -s /dev/sda'']" and a = "''/dev/sda:''" and b = "''gpt partitions 1''",
     THEN conjunct2, THEN conjunct1]
  by (simp add: e_spy tmpl_defs)

subsection \<open>GetPartitionUUID\<close>

text \<open>
  Claim C5. The executor succeeds, and the first line of its output that contains the
  label \<open>Partition unique GUID:\<close> reads: some text, the label at its first occurrence,
  white space, a GUID, white space. The white space is any sequence of the encodings that
  \<open>TrimSpace\<close> removes (possibly none); the GUID is not empty, neither begins nor ends with
  a byte of such an encoding, and does not contain the label. Then \<open>GetPartitionUUID\<close>
  returns exactly the GUID in lower case, with a nil error: the white space on both sides
  is gone, and the lines behind this one do not matter. On ASCII text lower case is
  bytewise. The result is \<open>5209cfd8-3ab1-4720-bcea-dfa80315ec92\<close> for the output that the
  source quotes, and also for the report with carriage returns, an indented label line,
  spaces around the GUID and a second label line.
\<close>

theorem GetPartitionUUID_first_label_line:
  "(e p (GetPartitionUUIDCmdTmpl device partNum) \<sigma> = ((stdout, stderr, None), \<sigma>')
      \<and> Split stdout [CHR 0x0A] = before @ line # after
      \<and> list_all (\<lambda>l. \<not> Contains l partitionPresentation) before
      \<and> line = pre @ partitionPresentation @ concat sp1 @ guid @ concat sp2
      \<and> \<not> Contains (pre @ butlast partitionPresentation) partitionPresentation
      \<and> list_all (\<lambda>w. w \<in> set unicodeSpaces) sp1
      \<and> list_all (\<lambda>w. w \<in> set unicodeSpaces) sp2
      \<and> guid \<noteq> [] \<and> hd guid \<notin> spaceBytes \<and> last guid \<notin> spaceBytes
      \<and> \<not> Contains guid partitionPresentation
    \<longrightarrow> GetPartitionUUID u p device partNum \<sigma> = ((ToLower u guid, None), \<sigma>'))
   \<and> (list_all isASCII s \<longrightarrow> ToLower u s = map lowerByte s)
   \<and> GetPartitionUUID u (NewPartition (spy (sgdiskInfo, stderr, None))) ''/dev/sdy'' ''1'' calls
       = ((''5209cfd8-3ab1-4720-bcea-dfa80315ec92'', None), calls @ [''sgdisk /dev/sdy --info=1''])
   \<and> GetPartitionUUID u (NewPartition (spy (sgdiskInfoCRLF, stderr, None))) ''/dev/sdy'' ''1'' calls
       = ((''5209cfd8-3ab1-4720-bcea-dfa80315ec92'', None), calls @ [''sgdisk /dev/sdy --info=1''])"
proof (intro conjI impI)
  assume h: "e p (GetPartitionUUIDCmdTmpl device partNum) \<sigma> = ((stdout, stderr, None), \<sigma>')
      \<and> Split stdout [CHR 0x0A] = before @ line # after
      \<and> list_all (\<lambda>l. \<not> Contains l partitionPresentation) before
      \<and> line = pre @ partitionPresentation @ concat sp1 @ guid @ concat sp2
      \<and> \<not> Contains (pre @ butlast partitionPresentation) partitionPresentation
      \<and> list_all (\<lambda>w. w \<in> set unicodeSpaces) sp1
      \<and> list_all (\<lambda>w. w \<in> set unicodeSpaces) sp2
      \<and> guid \<noteq> [] \<and> hd guid \<notin> spaceBytes \<and> last guid \<notin> spaceBytes
      \<and> \<not> Contains guid partitionPresentation"
  then have run: "e p (GetPartitionUUIDCmdTmpl device partNum) \<sigma> = ((stdout, stderr, None), \<sigma>')"
    and lines: "Split stdout [CHR 0x0A] = before @ line # after"
    and before: "list_all (\<lambda>l. \<not> Contains l partitionPresentation) before"
    and line: "line = pre @ partitionPresentation @ concat sp1 @ guid @ concat sp2"
    and first: "\<not> sublist partitionPresentation (pre @ butlast partitionPresentation)"
    and sp1: "list_all (\<lambda>w. w \<in> set unicodeSpaces) sp1"
    and sp2: "list_all (\<lambda>w. w \<in> set unicodeSpaces) sp2"
    and guid: "guid \<noteq> []" "hd guid \<notin> spaceBytes" "last guid \<notin> spaceBytes"
    and nolabel: "\<not> sublist partitionPresentation guid"
    by (simp_all add: Contains_iff_sublist)
  have trimmed: "TrimSpace line = TrimLeft pre @ partitionPresentation @ (concat sp1 @ guid)"
    unfolding line using sp1 sp2 guid by (simp add: label_line_trimmed)
  have first': "\<not> sublist partitionPresentation (TrimLeft pre @ butlast partitionPresentation)"
  proof
    assume a: "sublist partitionPresentation (TrimLeft pre @ butlast partitionPresentation)"
    obtain zs where "pre = zs @ TrimLeft pre"
      using TrimLeft_suffix [of pre] by (auto simp: suffix_def)
    then have "pre @ butlast partitionPresentation = zs @ (TrimLeft pre @ butlast partitionPresentation)"
      by simp
    then have "sublist (TrimLeft pre @ butlast partitionPresentation) (pre @ butlast partitionPresentation)"
      by (metis sublist_append_leftI)
    with a have "sublist partitionPresentation (pre @ butlast partitionPresentation)"
      by (rule sublist_order.order.trans)
    with first show False ..
  qed
  have rest: "\<not> sublist partitionPresentation (concat sp1 @ guid)"
  proof
    assume "sublist partitionPresentation (concat sp1 @ guid)"
    moreover have "partitionPresentation \<noteq> []" "hd partitionPresentation \<notin> spaceBytes"
      using partitionPresentation_ends(2) by (simp_all add: partitionPresentation_ends(1))
    moreover have "set (concat sp1) \<subseteq> spaceBytes" using sp1 by (rule concat_spaces_bytes)
    ultimately have "sublist partitionPresentation guid"
      using sublist_behind_spaces [of partitionPresentation spaceBytes "concat sp1" guid] by blast
    with nolabel show False ..
  qed
  have "TrimSpace (concat sp1 @ guid @ concat []) = guid"
    using sp1 _ guid by (rule TrimSpace_surrounded) simp
  then have "TrimSpace (concat sp1 @ guid) = guid" by simp
  with GetPartitionUUID_trimmed_line [OF run lines before trimmed first' rest]
  show "GetPartitionUUID u p device partNum \<sigma> = ((ToLower u guid, None), \<sigma>')"
    by simp
next
  assume "list_all isASCII s"
  then show "ToLower u s = map lowerByte s" by (simp add: ToLower_def)
next
  show "GetPartitionUUID u (NewPartition (spy (sgdiskInfo, stderr, None))) ''/dev/sdy'' ''1'' calls
       = ((''5209cfd8-3ab1-4720-bcea-dfa80315ec92'', None), calls @ [''sgdisk /dev/sdy --info=1''])"
    by (simp add: GetPartitionUUID_def e_spy tmpl_defs scanLines_sgdiskInfo)
next
  have 1: "Split sgdiskInfoCRLF [CHR 0x0A] =
     [''Partition GUID code: 0FC63DAF-8483-4772-8E79-3D69D8477DE4 (Linux filesystem)'' @ [CHR 0x0D],
      [CHR 0x09] @ ''Partition unique GUID:  5209CFD8-3AB1-4720-BCEA-DFA80315EC92 '' @ [CHR 0x0D],
      ''Partition unique GUID: 00000000-0000-0000-0000-000000000000'' @ [CHR 0x0D],
      []]"
    by (simp add: sgdiskInfoCRLF_def Split.simps)
  have 2: "\<not> Contains (''Partition GUID code: 0FC63DAF-8483-4772-8E79-3D69D8477DE4 (Linux filesystem)'' @ [CHR 0x0D])
              partitionPresentation"
    by (simp add: Contains_def partitionPresentation_def)
  have 3: "Contains ([CHR 0x09] @ ''Partition unique GUID:  5209CFD8-3AB1-4720-BCEA-DFA80315EC92 '' @ [CHR 0x0D])
              partitionPresentation"
    by (simp add: Contains_def partitionPresentation_def)
  have 4: "TrimSpace ([CHR 0x09] @ ''Partition unique GUID:  5209CFD8-3AB1-4720-BCEA-DFA80315EC92 '' @ [CHR 0x0D])
           = ''Partition unique GUID:  5209CFD8-3AB1-4720-BCEA-DFA80315EC92''"
    by (simp add: trim_eval)
  have 5: "Split ''Partition unique GUID:  5209CFD8-3AB1-4720-BCEA-DFA80315EC92'' partitionPresentation
           = [[], ''  5209CFD8-3AB1-4720-BCEA-DFA80315EC92'']"
    by (simp add: Split.simps partitionPresentation_def)
  have 6: "TrimSpace ''  5209CFD8-3AB1-4720-BCEA-DFA80315EC92'' = ''5209CFD8-3AB1-4720-BCEA-DFA80315EC92''"
    by (simp add: trim_eval)
  have 7: "ToLower u ''5209CFD8-3AB1-4720-BCEA-DFA80315EC92'' = ''5209cfd8-3ab1-4720-bcea-dfa80315ec92''"
    unfolding ToLower_def using ascii_guid lower_guid by simp
  have "scanLines u ''/dev/sdy'' (Split sgdiskInfoCRLF [CHR 0x0A])
        = (''5209cfd8-3ab1-4720-bcea-dfa80315ec92'', None)"
    by (simp only: 1 scanLines.simps 2 3 4 5 6 7 if_True if_False Let_def
          list.size nth_Cons_Suc nth_Cons_0 One_nat_def) simp
  then show "GetPartitionUUID u (NewPartition (spy (sgdiskInfoCRLF, stderr, None))) ''/dev/sdy'' ''1'' calls
       = ((''5209cfd8-3ab1-4720-bcea-dfa80315ec92'', None), calls @ [''sgdisk /dev/sdy --info=1''])"
    by (simp add: GetPartitionUUID_def e_spy tmpl_defs)
qed

theorem GetPartitionUUID_first_label_line_witness:
  "GetPartitionUUID asciiTables (NewPartition (spy (sgdiskInfoCRLF, [], None))) ''/dev/sdy'' ''1'' []
     = ((ToLower asciiTables ''5209CFD8-3AB1-4720-BCEA-DFA80315EC92'', None), [''sgdisk /dev/sdy --info=1''])
   \<and> ToLower asciiTables ''5209CFD8-3AB1-4720-BCEA-DFA80315EC92'' = ''5209cfd8-3ab1-4720-bcea-dfa80315ec92''"
proof -
  have run: "e (NewPartition (spy (sgdiskInfoCRLF, [], None))) (GetPartitionUUIDCmdTmpl ''/dev/sdy'' ''1'') []
             = ((sgdiskInfoCRLF, [], None), [''sgdisk /dev/sdy --info=1''])"
    by (simp add: e_spy tmpl_defs)
  have lines: "Split sgdiskInfoCRLF [CHR 0x0A] =
       [''Partition GUID code: 0FC63DAF-8483-4772-8E79-3D69D8477DE4 (Linux filesystem)'' @ [CHR 0x0D]]
       @ ([CHR 0x09] @ ''Partition unique GUID:  5209CFD8-3AB1-4720-BCEA-DFA80315EC92 '' @ [CHR 0x0D])
       # [''Partition unique GUID: 00000000-0000-0000-0000-000000000000'' @ [CHR 0x0D], []]"
    by (simp add: sgdiskInfoCRLF_def Split.simps)
  have before: "list_all (\<lambda>l. \<not> Contains l partitionPresentation)
       [''Partition GUID code: 0FC63DAF-8483-4772-8E79-3D69D8477DE4 (Linux filesystem)'' @ [CHR 0x0D]]"
    by (simp add: Contains_def partitionPresentation_def)
  have line: "[CHR 0x09] @ ''Partition unique GUID:  5209CFD8-3AB1-4720-BCEA-DFA80315EC92 '' @ [CHR 0x0D]
       = [CHR 0x09] @ partitionPresentation @ concat [[CHR 0x20], [CHR 0x20]]
         @ ''5209CFD8-3AB1-4720-BCEA-DFA80315EC92'' @ concat [[CHR 0x20], [CHR 0x0D]]"
    by (simp add: partitionPresentation_def)
  have first: "\<not> Contains ([CHR 0x09] @ butlast partitionPresentation) partitionPresentation"
    by (simp add: Contains_def partitionPresentation_def)
  have sp1: "list_all (\<lambda>w. w \<in> set unicodeSpaces) [[CHR 0x20], [CHR 0x20]]"
    by (simp add: unicodeSpaces_def)
  have sp2: "list_all (\<lambda>w. w \<in> set unicodeSpaces) [[CHR 0x20], [CHR 0x0D]]"
    by (simp add: unicodeSpaces_def)
  have guid: "''5209CFD8-3AB1-4720-BCEA-DFA80315EC92'' \<noteq> []
      \<and> hd ''5209CFD8-3AB1-4720-BCEA-DFA80315EC92'' \<notin> spaceBytes
      \<and> last ''5209CFD8-3AB1-4720-BCEA-DFA80315EC92'' \<notin> spaceBytes
      \<and> \<not> Contains ''5209CFD8-3AB1-4720-BCEA-DFA80315EC92'' partitionPresentation"
    by (simp add: spaceBytes_def unicodeSpaces_def Contains_def partitionPresentation_def)
  have "GetPartitionUUID asciiTables (NewPartition (spy (sgdiskInfoCRLF, [], None))) ''/dev/sdy'' ''1'' []
     = ((ToLower asciiTables ''5209CFD8-3AB1-4720-BCEA-DFA80315EC92'', None), [''sgdisk /dev/sdy --info=1''])"
    using GetPartitionUUID_first_label_line [THEN conjunct1, THEN mp, OF conjI [OF run conjI [OF lines
            conjI [OF before conjI [OF line conjI [OF first conjI [OF sp1 conjI [OF sp2 guid]]]]]]]] .
  moreover have "ToLower asciiTables ''5209CFD8-3AB1-4720-BCEA-DFA80315EC92''
       = ''5209cfd8-3ab1-4720-bcea-dfa80315ec92''"
    using GetPartitionUUID_first_label_line
        [where s = "''5209CFD8-3AB1-4720-BCEA-DFA80315EC92''" and u = asciiTables,
         THEN conjunct2, THEN conjunct1]
      ascii_guid lower_guid
    by simp
  ultimately show ?thesis by (rule conjI)
qed

text \<open>
  Claim C2 says that a line which contains the label and nothing behind it gives a parse
  error. The source tests \<open>len(res) > 1\<close> only, which holds for every line that contains
  the label, and returns the empty string with a nil error: for an output that is the
  bare label, and for an output whose label line ends in spaces. (The other half of the
  claim holds, see \<open>GetPartitionUUID_no_label_line\<close>: an output without the label gives the
  error that names the device.)
\<close>

theorem GetPartitionUUID_label_without_value:
  "GetPartitionUUID asciiTables (NewPartition (spy (''Partition unique GUID:'', [], None)))
      ''/dev/sdy'' ''1'' [] = (([], None), [''sgdisk /dev/sdy --info=1''])
   \<and> GetPartitionUUID asciiTables
        (NewPartition (spy (''Partition GUID code: 0FC63DAF'' @ [CHR 0x0A]
                            @ ''Partition unique GUID:  '' @ [CHR 0x0A]
                            @ ''First sector: 2048'' @ [CHR 0x0A], [], None)))
      ''/dev/sdy'' ''1'' [] = (([], None), [''sgdisk /dev/sdy --info=1''])"
  by (simp add: GetPartitionUUID_def e_spy tmpl_defs Split.simps Contains_def partitionPresentation_def
        trim_eval ToLower_def)

end
